theory Spec2Isabelle
  imports Complex_Main
begin

section \<open>JavaScript values the engine handles\<close>

text \<open>
  A reference that JavaScript may hold as \<^verbatim>\<open>undefined\<close>, as \<^verbatim>\<open>null\<close> or as an object.
  The engine tells the three apart: \<^verbatim>\<open>x === null\<close> is true of \<^verbatim>\<open>null\<close> only, \<^verbatim>\<open>!x\<close> is
  true of both empty values, and a property read on either empty value throws.
\<close>

datatype 'a js_ref = Undefined | Null | Obj 'a

definition truthy :: "'a js_ref \<Rightarrow> bool" where
  "truthy r = (case r of Obj _ \<Rightarrow> True | _ \<Rightarrow> False)"

text \<open>
  A thrown value: any value of the language. The engine's catch blocks read
  \<^verbatim>\<open>error.stack ?? error\<close> and put the result into a template literal. Reading \<^verbatim>\<open>.stack\<close>
  of a thrown \<^verbatim>\<open>undefined\<close> or \<^verbatim>\<open>null\<close> throws; of any other value it gives nothing
  (the property is absent, \<^verbatim>\<open>undefined\<close> or \<^verbatim>\<open>null\<close>), or a value, or it throws, as a
  getter may. A template literal converts the value to a string, which gives a string
  or throws: a Symbol and an object without a usable \<^verbatim>\<open>toString\<close> cannot be converted.
\<close>

datatype thrown =
    ThrownUndefined
  | ThrownNull
  | ThrownValue (stack: stack_read) (converted: conversion)
and conversion = Text string | Fails thrown
and stack_read = NoStack | Stack conversion | StackThrows thrown

definition TypeError :: "string \<Rightarrow> thrown" where
  "TypeError m =
     ThrownValue (Stack (Text (''TypeError: '' @ m))) (Text (''TypeError: '' @ m))"

definition Error :: "string \<Rightarrow> thrown" where
  "Error m = ThrownValue (Stack (Text (''Error: '' @ m))) (Text (''Error: '' @ m))"

text \<open>The error of reading a property of a reference that holds no object.\<close>

definition read_of_empty :: "'a js_ref \<Rightarrow> string \<Rightarrow> thrown" where
  "read_of_empty r property =
     TypeError (''Cannot read properties of ''
                @ (case r of Null \<Rightarrow> ''null'' | _ \<Rightarrow> ''undefined'')
                @ '' (reading '' @ [CHR 0x27] @ property @ [CHR 0x27] @ '')'')"

datatype 'a outcome = Return 'a | Throw thrown

text \<open>The result of \<^verbatim>\<open>Number(s)\<close>; negative zero is not told apart from zero.\<close>

datatype js_number = NaN | Infinity | NegInfinity | Finite rat

definition isNaN :: "js_number \<Rightarrow> bool" where
  "isNaN n = (n = NaN)"

subsection \<open>Strings\<close>

fun join :: "string \<Rightarrow> string list \<Rightarrow> string" where
  "join sep [] = []"
| "join sep [x] = x"
| "join sep (x # y # ys) = x @ sep @ join sep (y # ys)"

fun strip_prefix :: "string \<Rightarrow> string \<Rightarrow> string option" where
  "strip_prefix [] s = Some s"
| "strip_prefix (p # ps) [] = None"
| "strip_prefix (p # ps) (c # cs) = (if p = c then strip_prefix ps cs else None)"

definition digit_char :: "nat \<Rightarrow> char" where
  "digit_char d = char_of (48 + d)"

fun show_nat :: "nat \<Rightarrow> string" where
  "show_nat n = (if n < 10 then [digit_char n] else show_nat (n div 10) @ [digit_char (n mod 10)])"

declare show_nat.simps [simp del]

definition show_int :: "int \<Rightarrow> string" where
  "show_int i = (if i < 0 then CHR ''-'' # show_nat (nat (- i)) else show_nat (nat i))"

definition dquote :: char where
  "dquote = CHR 0x22"

section \<open>The platform's objects\<close>

type_synonym CHANNEL_TYPE = string

record Channel =
  channel_id :: string
  channel_type :: CHANNEL_TYPE

record User =
  user_id :: string

record Member =
  member_id :: string

record Role =
  role_name :: string

text \<open>\<^verbatim>\<open>server.roles\<close> is optional on the platform's server object.\<close>

record Server =
  server_id :: string
  roles :: "(string \<times> Role) list option"

record Message =
  message_id :: string

text \<open>What \<^verbatim>\<open>menu.args\<close> collects during the descent.\<close>

datatype arg_value =
    AChannel Channel
  | AMessage Message
  | AUser User
  | ARole Role
  | AServer Server
  | ANumber js_number
  | AString string

text \<open>
  \<^verbatim>\<open>CommandMenu\<close>. The \<^verbatim>\<open>client\<close> field is a process-wide singleton that the engine never
  reads; what it answers is in the environment below. \<^verbatim>\<open>send\<close> resolves (\<open>None\<close>) or
  rejects with a value.
\<close>

record CommandMenu =
  menu_args :: "arg_value list"
  menu_message :: Message
  menu_channel :: "Channel js_ref"
  menu_server :: "Server js_ref"
  menu_author :: "User js_ref"
  menu_member :: "Member js_ref"
  menu_send :: "string \<Rightarrow> thrown option"

record ExecuteCommandMetadata =
  md_header :: string
  md_args :: "string list"
  md_permission :: int
  md_nsfw :: bool
  md_channelType :: CHANNEL_TYPE
  md_symbolicArgs :: "string list"

text \<open>
  The collaborators the engine calls and whose code is elsewhere: the platform client's
  caches and fetches (\<open>None\<close> when the fetch rejects or the cache misses), the permission
  table, the prefix resolver, the template substitution, the objects' \<^verbatim>\<open>toString\<close> and
  the language's \<^verbatim>\<open>Number\<close>.
\<close>

record env =
  channels_fetch :: "string \<Rightarrow> Channel option"
  users_fetch :: "string \<Rightarrow> User option"
  servers_get :: "string \<Rightarrow> Server option"
  fetchMessage :: "Channel \<Rightarrow> string \<Rightarrow> Message option"
  channel_toString :: "Channel \<Rightarrow> string"
  user_toString :: "User \<Rightarrow> string"
  hasPermission :: "User js_ref \<Rightarrow> Member js_ref \<Rightarrow> int \<Rightarrow> bool"
  getPermissionLevel :: "User js_ref \<Rightarrow> Member js_ref \<Rightarrow> int"
  getPermissionName :: "int \<Rightarrow> string"
  getPrefix :: "Server js_ref \<Rightarrow> string"
  parseVars :: "string \<Rightarrow> (string \<times> string) list \<Rightarrow> string \<Rightarrow> string"
  js_Number :: "string \<Rightarrow> js_number"

section \<open>The token patterns\<close>

text \<open>\<^verbatim>\<open>\w\<close>: an ASCII letter, a digit or the underscore.\<close>

definition is_word_char :: "char \<Rightarrow> bool" where
  "is_word_char c =
     (let n = (of_char c :: nat) in
      (48 \<le> n \<and> n \<le> 57) \<or> (65 \<le> n \<and> n \<le> 90) \<or> n = 95 \<or> (97 \<le> n \<and> n \<le> 122))"

text \<open>\<^verbatim>\<open>^\w{n,}$\<close>\<close>

definition word_run :: "nat \<Rightarrow> string \<Rightarrow> bool" where
  "word_run n s = (n \<le> length s \<and> list_all is_word_char s)"

text \<open>\<^verbatim>\<open>/^<#(\w{26,})>$/\<close>, giving the captured group.\<close>

definition patterns_channel :: "string \<Rightarrow> string option" where
  "patterns_channel p =
     (case strip_prefix ''<#'' p of
        None \<Rightarrow> None
      | Some r \<Rightarrow>
          if r \<noteq> [] \<and> last r = CHR ''>'' \<and> word_run 26 (butlast r) then Some (butlast r)
          else None)"

text \<open>\<^verbatim>\<open>/^<@?(\w{26,})>$/\<close>\<close>

definition patterns_user :: "string \<Rightarrow> string option" where
  "patterns_user p =
     (case strip_prefix ''<'' p of
        None \<Rightarrow> None
      | Some r0 \<Rightarrow>
          let r = (case strip_prefix ''@'' r0 of Some r1 \<Rightarrow> r1 | None \<Rightarrow> r0) in
          if r \<noteq> [] \<and> last r = CHR ''>'' \<and> word_run 26 (butlast r) then Some (butlast r)
          else None)"

text \<open>\<^verbatim>\<open>/^(\w{26,})$/\<close>\<close>

definition patterns_id :: "string \<Rightarrow> string option" where
  "patterns_id p = (if word_run 26 p then Some p else None)"

text \<open>
  \<^verbatim>\<open>/^https?:\/\/(?:nightly\.|app\.)?revolt\.chat\/(?:server|channel)\/(\w{26,})\/(\w{26,}|channel\/\w{26,}\/\w{7,})$/\<close>,
  giving the two captured groups.
\<close>

definition patterns_messageLink :: "string \<Rightarrow> (string \<times> string) option" where
  "patterns_messageLink p =
     (case strip_prefix ''http'' p of
        None \<Rightarrow> None
      | Some r0 \<Rightarrow>
     (case strip_prefix ''://'' (case strip_prefix ''s'' r0 of Some r \<Rightarrow> r | None \<Rightarrow> r0) of
        None \<Rightarrow> None
      | Some r2 \<Rightarrow>
     (case strip_prefix ''revolt.chat/''
             (case strip_prefix ''nightly.'' r2 of
                Some r \<Rightarrow> r
              | None \<Rightarrow> (case strip_prefix ''app.'' r2 of Some r \<Rightarrow> r | None \<Rightarrow> r2)) of
        None \<Rightarrow> None
      | Some r4 \<Rightarrow>
     (case (case strip_prefix ''server/'' r4 of
              Some r \<Rightarrow> Some r
            | None \<Rightarrow> strip_prefix ''channel/'' r4) of
        None \<Rightarrow> None
      | Some r5 \<Rightarrow>
          if length (takeWhile is_word_char r5) < 26 then None
          else
     (case strip_prefix ''/'' (dropWhile is_word_char r5) of
        None \<Rightarrow> None
      | Some g2 \<Rightarrow>
          if word_run 26 g2 then Some (takeWhile is_word_char r5, g2)
          else
     (case strip_prefix ''channel/'' g2 of
        None \<Rightarrow> None
      | Some r7 \<Rightarrow>
          if length (takeWhile is_word_char r7) < 26 then None
          else
     (case strip_prefix ''/'' (dropWhile is_word_char r7) of
        None \<Rightarrow> None
      | Some m \<Rightarrow>
          if word_run 7 m then Some (takeWhile is_word_char r5, g2) else None)))))))"

section \<open>Lookups by ID\<close>

definition getGuildByID :: "env \<Rightarrow> string \<Rightarrow> string + Server" where
  "getGuildByID e i =
     (case servers_get e i of
        Some guild \<Rightarrow> Inr guild
      | None \<Rightarrow> Inl (''No guild found by the ID of `'' @ i @ ''`!''))"

definition getChannelByID :: "env \<Rightarrow> string \<Rightarrow> string + Channel" where
  "getChannelByID e i =
     (case channels_fetch e i of
        Some c \<Rightarrow> Inr c
      | None \<Rightarrow> Inl (''No channel found by the ID of `'' @ i @ ''`!''))"

text \<open>The first argument of \<^verbatim>\<open>getMessageByID\<close>: a channel object or a channel ID.\<close>

datatype channel_arg = ChannelRef "Channel js_ref" | ChannelID string

definition js_ref_toString :: "('a \<Rightarrow> string) \<Rightarrow> 'a js_ref \<Rightarrow> string" where
  "js_ref_toString f r =
     (case r of Undefined \<Rightarrow> ''undefined'' | Null \<Rightarrow> ''null'' | Obj x \<Rightarrow> f x)"

text \<open>
  The second half of \<^verbatim>\<open>getMessageByID\<close>: the fetch inside \<^verbatim>\<open>try\<close>. A channel that is
  no object makes the call throw, which the \<^verbatim>\<open>catch\<close> turns into the same message.
\<close>

definition fetch_from :: "env \<Rightarrow> Channel js_ref \<Rightarrow> string \<Rightarrow> string + Message" where
  "fetch_from e channel i =
     (case (case channel of Obj c \<Rightarrow> fetchMessage e c i | _ \<Rightarrow> None) of
        Some m \<Rightarrow> Inr m
      | None \<Rightarrow>
          Inl (''`'' @ i @ ''` isn't a valid message of the channel ''
               @ js_ref_toString (channel_toString e) channel @ ''!''))"

definition getMessageByID :: "env \<Rightarrow> channel_arg \<Rightarrow> string \<Rightarrow> string + Message" where
  "getMessageByID e channel i =
     (case channel of
        ChannelID cid \<Rightarrow>
          (case getChannelByID e cid of
             Inr targetChannel \<Rightarrow>
               if channel_type targetChannel = ''TextChannel''
                  \<or> channel_type targetChannel = ''DirectMessage''
               then fetch_from e (Obj targetChannel) i
               else Inl (''`'' @ i @ ''` isn't a valid text-based channel!'')
           | Inl notFound \<Rightarrow> Inl notFound)
      | ChannelRef c \<Rightarrow> fetch_from e c i)"

definition getUserByID :: "env \<Rightarrow> string \<Rightarrow> string + User" where
  "getUserByID e i =
     (case users_fetch e i of
        Some u \<Rightarrow> Inr u
      | None \<Rightarrow> Inl (''No user found by the ID of `'' @ i @ ''`!''))"

section \<open>The permission gate\<close>

text \<open>\<^verbatim>\<open>menu.channel.channel_type\<close>: a read through a reference that may be empty.\<close>

definition menu_channel_type :: "CommandMenu \<Rightarrow> CHANNEL_TYPE outcome" where
  "menu_channel_type menu =
     (case menu_channel menu of
        Obj c \<Rightarrow> Return (channel_type c)
      | absent \<Rightarrow> Throw (read_of_empty absent ''channel_type''))"

definition nsfw_message :: string where
  "nsfw_message =
     ''This command must be executed in either an NSFW channel or as a direct message.''"

definition permission_message :: "env \<Rightarrow> CommandMenu \<Rightarrow> ExecuteCommandMetadata \<Rightarrow> string" where
  "permission_message e menu metadata =
     (let userPermLevel = getPermissionLevel e (menu_author menu) (menu_member menu) in
      ''You don't have access to this command! Your permission level is `''
      @ getPermissionName e userPermLevel @ ''` ('' @ show_int userPermLevel
      @ ''), but this command requires a permission level of `''
      @ getPermissionName e (md_permission metadata) @ ''` (''
      @ show_int (md_permission metadata) @ '').'')"

text \<open>Step 3 of \<^verbatim>\<open>canExecute\<close>.\<close>

definition canExecute_permission ::
  "env \<Rightarrow> CommandMenu \<Rightarrow> ExecuteCommandMetadata \<Rightarrow> string option outcome" where
  "canExecute_permission e menu metadata =
     (if \<not> hasPermission e (menu_author menu) (menu_member menu) (md_permission metadata)
      then Return (Some (permission_message e menu metadata))
      else Return None)"

text \<open>
  Step 2: \<^verbatim>\<open>metadata.nsfw && menu.channel.channel_type !== 'DirectMessage' && !menu.channel\<close>,
  evaluated left to right, stopping at the first false operand.
\<close>

definition canExecute_nsfw ::
  "env \<Rightarrow> CommandMenu \<Rightarrow> ExecuteCommandMetadata \<Rightarrow> string option outcome" where
  "canExecute_nsfw e menu metadata =
     (if md_nsfw metadata then
        (case menu_channel_type menu of
           Throw t \<Rightarrow> Throw t
         | Return ct \<Rightarrow>
             if ct \<noteq> ''DirectMessage'' \<and> \<not> truthy (menu_channel menu)
             then Return (Some nsfw_message)
             else canExecute_permission e menu metadata)
      else canExecute_permission e menu metadata)"

definition canExecute ::
  "env \<Rightarrow> CommandMenu \<Rightarrow> ExecuteCommandMetadata \<Rightarrow> string option outcome" where
  "canExecute e menu metadata =
     (if md_channelType metadata = ''TextChannel'' then
        (case menu_channel_type menu of
           Throw t \<Rightarrow> Throw t
         | Return ct \<Rightarrow>
             if \<not> (ct = ''TextChannel'') \<or> menu_server menu = Null \<or> menu_member menu = Null
             then Return (Some ''This command must be executed in a server.'')
             else canExecute_nsfw e menu metadata)
      else if md_channelType metadata = ''DirectMessage'' then
        (case menu_channel_type menu of
           Throw t \<Rightarrow> Throw t
         | Return ct \<Rightarrow>
             if ct \<noteq> ''DirectMessage'' \<or> menu_server menu \<noteq> Null \<or> menu_member menu \<noteq> Null
             then Return (Some ''This command must be executed as a direct message.'')
             else canExecute_nsfw e menu metadata)
      else canExecute_nsfw e menu metadata)"

section \<open>The command tree\<close>

datatype ID = IdChannel | IdRole | IdEmote | IdMessage | IdUser | IdServer

definition ID_string :: "ID \<Rightarrow> string" where
  "ID_string k =
     (case k of
        IdChannel \<Rightarrow> ''channel''
      | IdRole \<Rightarrow> ''role''
      | IdEmote \<Rightarrow> ''emote''
      | IdMessage \<Rightarrow> ''message''
      | IdUser \<Rightarrow> ''user''
      | IdServer \<Rightarrow> ''server'')"

text \<open>
  \<^verbatim>\<open>BaseCommand\<close>: permission \<open>-1\<close> inherits, as do an absent \<^verbatim>\<open>nsfw\<close> and an absent
  \<^verbatim>\<open>channelType\<close>.
\<close>

record BaseCommand =
  description :: string
  usage :: string
  permission :: int
  nsfw :: "bool option"
  channelType :: "CHANNEL_TYPE option"

text \<open>
  A leaf action: a template string, or a handler. A handler is known by what its promise
  does: it resolves (\<open>None\<close>) or rejects with a value. A rest handler also gets the
  combined string.
\<close>

datatype Run = RunString string | RunFn "CommandMenu \<Rightarrow> thrown option"

datatype RestRun = RestRunString string | RestRunFn "CommandMenu \<Rightarrow> string \<Rightarrow> thrown option"

datatype RestCommand = RestCommand (rest_base: BaseCommand) (rest_run: RestRun)

text \<open>
  \<^verbatim>\<open>Command\<close>, with the fields the constructor leaves in it; \<^verbatim>\<open>subcommands\<close> is the map
  from names and aliases to sub-commands, in insertion order. A \<^verbatim>\<open>NamedCommand\<close> is a
  \<^verbatim>\<open>Command\<close> with aliases and a name that is absent until it is set.
\<close>

datatype Command =
  Command
    (cmd_base: BaseCommand)
    (cmd_run: Run)
    (cmd_subcommands: "(string \<times> NamedCommand) list")
    (cmd_channel: "Command option")
    (cmd_role: "Command option")
    (cmd_emote: "Command option")
    (cmd_message: "Command option")
    (cmd_user: "Command option")
    (cmd_guild: "Command option")
    (cmd_id: "Command option")
    (cmd_idType: "ID option")
    (cmd_number: "Command option")
    (cmd_any: "AnyBranch option")
and NamedCommand =
  NamedCommand
    (nc_command: Command)
    (aliases: "string list")
    (originalCommandName: "string option")
and AnyBranch = AnyCommand Command | AnyRest RestCommand

section \<open>Execution\<close>

text \<open>
  What a call of \<^verbatim>\<open>execute\<close> can change: the menu (its \<^verbatim>\<open>args\<close>), the metadata, the
  messages sent through \<^verbatim>\<open>menu.send\<close> and the lines written by \<^verbatim>\<open>console.error\<close>.
\<close>

record exec_state =
  ex_menu :: CommandMenu
  ex_metadata :: ExecuteCommandMetadata
  ex_sent :: "string list"
  ex_console :: "string list"

text \<open>The first three statements of both \<^verbatim>\<open>execute\<close> methods.\<close>

definition inherit :: "BaseCommand \<Rightarrow> ExecuteCommandMetadata \<Rightarrow> ExecuteCommandMetadata" where
  "inherit this metadata =
     (let m1 = (if permission this \<noteq> - 1 then metadata\<lparr>md_permission := permission this\<rparr>
                else metadata);
          m2 = (case nsfw this of Some v \<Rightarrow> m1\<lparr>md_nsfw := v\<rparr> | None \<Rightarrow> m1)
      in (case channelType this of Some v \<Rightarrow> m2\<lparr>md_channelType := v\<rparr> | None \<Rightarrow> m2))"

definition inherit_state :: "BaseCommand \<Rightarrow> exec_state \<Rightarrow> exec_state" where
  "inherit_state this st = st\<lparr>ex_metadata := inherit this (ex_metadata st)\<rparr>"

definition push_symbolic :: "string \<Rightarrow> exec_state \<Rightarrow> exec_state" where
  "push_symbolic s st =
     st\<lparr>ex_metadata := (ex_metadata st)\<lparr>md_symbolicArgs := md_symbolicArgs (ex_metadata st) @ [s]\<rparr>\<rparr>"

definition push_args :: "arg_value list \<Rightarrow> exec_state \<Rightarrow> exec_state" where
  "push_args vs st = st\<lparr>ex_menu := (ex_menu st)\<lparr>menu_args := menu_args (ex_menu st) @ vs\<rparr>\<rparr>"

text \<open>The string sent for a template leaf; reading \<^verbatim>\<open>menu.author!.toString()\<close> comes first.\<close>

definition send_template :: "env \<Rightarrow> string \<Rightarrow> exec_state \<Rightarrow> string option outcome \<times> exec_state" where
  "send_template e template st =
     (case menu_author (ex_menu st) of
        Obj author \<Rightarrow>
          (let text = parseVars e template
                 [(''author'', user_toString e author),
                  (''prefix'', getPrefix e (menu_server (ex_menu st))),
                  (''command'', md_header (ex_metadata st) @ '' ''
                     @ join '', '' (md_symbolicArgs (ex_metadata st)))]
                 ''???''
           in (case menu_send (ex_menu st) text of
                 None \<Rightarrow> (Return None, st\<lparr>ex_sent := ex_sent st @ [text]\<rparr>)
               | Some t \<Rightarrow> (Throw t, st)))
      | absent \<Rightarrow> (Throw (read_of_empty absent ''toString''), st))"

text \<open>\<^verbatim>\<open>error.stack ?? error\<close>, for a thrown value that is an object or a primitive.\<close>

definition stack_or_self :: "stack_read \<Rightarrow> conversion \<Rightarrow> conversion outcome" where
  "stack_or_self stk self =
     (case stk of
        NoStack \<Rightarrow> Return self
      | Stack v \<Rightarrow> Return v
      | StackThrows t \<Rightarrow> Throw t)"

text \<open>The conversion that a template literal does.\<close>

definition to_string :: "conversion \<Rightarrow> string outcome" where
  "to_string v = (case v of Text s \<Rightarrow> Return s | Fails t \<Rightarrow> Throw t)"

text \<open>
  The \<^verbatim>\<open>catch\<close> block of a handler call. The template literal of \<^verbatim>\<open>console.error\<close> is
  evaluated before anything is written or returned.
\<close>

definition catch_handler :: "thrown \<Rightarrow> exec_state \<Rightarrow> string option outcome \<times> exec_state" where
  "catch_handler error st =
     (case error of
        ThrownUndefined \<Rightarrow> (Throw (read_of_empty (Undefined :: unit js_ref) ''stack''), st)
      | ThrownNull \<Rightarrow> (Throw (read_of_empty (Null :: unit js_ref) ''stack''), st)
      | ThrownValue stk self \<Rightarrow>
          (case stack_or_self stk self of
             Throw t \<Rightarrow> (Throw t, st)
           | Return errorMessage \<Rightarrow>
               (case to_string errorMessage of
                  Throw t \<Rightarrow> (Throw t, st)
                | Return text \<Rightarrow>
                    (Return (Some (''There was an error while trying to execute that command!```''
                                   @ text @ ''```'')),
                     st\<lparr>ex_console := ex_console st @
                          [''Command Error: '' @ md_header (ex_metadata st) @ '' (''
                           @ join '', '' (md_args (ex_metadata st)) @ '')'' @ [CHR 0x0A]
                           @ text]\<rparr>))))"

text \<open>\<^verbatim>\<open>Command.execute\<close> once no argument is left.\<close>

definition execute_here :: "env \<Rightarrow> Command \<Rightarrow> exec_state \<Rightarrow> string option outcome \<times> exec_state" where
  "execute_here e this st =
     (case canExecute e (ex_menu st) (ex_metadata st) of
        Throw t \<Rightarrow> (Throw t, st)
      | Return error \<Rightarrow>
          if error \<noteq> None \<and> error \<noteq> Some [] then (Return error, st)
          else
            (case cmd_run this of
               RunString template \<Rightarrow> send_template e template st
             | RunFn run \<Rightarrow>
                 (case run (ex_menu st) of
                    None \<Rightarrow> (Return None, st)
                  | Some error \<Rightarrow> catch_handler error st)))"

definition RestCommand_execute ::
  "env \<Rightarrow> RestCommand \<Rightarrow> string \<Rightarrow> exec_state \<Rightarrow> string option outcome \<times> exec_state" where
  "RestCommand_execute e this combined st0 =
     (let st = inherit_state (rest_base this) st0 in
      case canExecute e (ex_menu st) (ex_metadata st) of
        Throw t \<Rightarrow> (Throw t, st)
      | Return error \<Rightarrow>
          if error \<noteq> None \<and> error \<noteq> Some [] then (Return error, st)
          else
            (case rest_run this of
               RestRunString template \<Rightarrow> send_template e template st
             | RestRunFn run \<Rightarrow>
                 (case run (ex_menu st) combined of
                    None \<Rightarrow> (Return None, st)
                  | Some error \<Rightarrow> catch_handler error st)))"

text \<open>
  One token of \<^verbatim>\<open>Command.execute\<close> ends the call with a result, or hands the remaining
  tokens to a sub-command, or hands the combined string to a rest command.
\<close>

datatype step =
    Finish "string option outcome" exec_state
  | Descend Command exec_state
  | DescendRest RestCommand string exec_state

text \<open>
  The bodies of the branches of the \<^verbatim>\<open>if\<close> chain of \<^verbatim>\<open>Command.execute\<close>, each for a
  token that its guard has accepted.
\<close>

definition match_subcommand :: "NamedCommand \<Rightarrow> string \<Rightarrow> exec_state \<Rightarrow> step" where
  "match_subcommand sub param st = Descend (nc_command sub) (push_symbolic param st)"

definition match_channel :: "env \<Rightarrow> Command \<Rightarrow> string \<Rightarrow> exec_state \<Rightarrow> step" where
  "match_channel e channelCmd i st =
     (case getChannelByID e i of
        Inr channel \<Rightarrow>
          Descend channelCmd (push_args [AChannel channel] (push_symbolic ''<channel>'' st))
      | Inl notFound \<Rightarrow> Finish (Return (Some notFound)) st)"

definition match_message :: "env \<Rightarrow> Command \<Rightarrow> string \<times> string \<Rightarrow> exec_state \<Rightarrow> step" where
  "match_message e messageCmd result st =
     (case getMessageByID e (ChannelID (fst result)) (snd result) of
        Inr message \<Rightarrow>
          Descend messageCmd (push_args [AMessage message] (push_symbolic ''<message>'' st))
      | Inl notFound \<Rightarrow> Finish (Return (Some notFound)) st)"

definition match_user :: "env \<Rightarrow> Command \<Rightarrow> string \<Rightarrow> exec_state \<Rightarrow> step" where
  "match_user e userCmd i st =
     (case getUserByID e i of
        Inr user \<Rightarrow> Descend userCmd (push_args [AUser user] (push_symbolic ''<user>'' st))
      | Inl notFound \<Rightarrow> Finish (Return (Some notFound)) st)"

text \<open>The \<^verbatim>\<open>switch\<close> on \<^verbatim>\<open>this.idType\<close>, after \<^verbatim>\<open><id>\<close> has been pushed.\<close>

definition id_switch :: "env \<Rightarrow> Command \<Rightarrow> ID \<Rightarrow> string \<Rightarrow> exec_state \<Rightarrow> step" where
  "id_switch e idCmd idType i st =
     (case idType of
        IdChannel \<Rightarrow>
          (case getChannelByID e i of
             Inr channel \<Rightarrow>
               Descend idCmd (push_args [AChannel channel] (push_symbolic ''<channel>'' st))
           | Inl notFound \<Rightarrow> Finish (Return (Some notFound)) st)
      | IdRole \<Rightarrow>
          (case menu_server (ex_menu st) of
             Obj server \<Rightarrow>
               (case roles server of
                  None \<Rightarrow>
                    Finish (Throw (read_of_empty (Undefined :: unit js_ref) i)) st
                | Some table \<Rightarrow>
                    (case map_of table i of
                       Some role \<Rightarrow> Descend idCmd (push_args [ARole role] st)
                     | None \<Rightarrow>
                         Finish (Return (Some (''`'' @ i
                                               @ ''` isn't a valid role in this server!''))) st))
           | _ \<Rightarrow> Finish (Return (Some ''You can't use role parameters in DM channels!'')) st)
      | IdEmote \<Rightarrow> Finish (Return (Some ''Emotes aren't implemented in Revolt yet.'')) st
      | IdMessage \<Rightarrow>
          (case getMessageByID e (ChannelRef (menu_channel (ex_menu st))) i of
             Inr message \<Rightarrow> Descend idCmd (push_args [AMessage message] st)
           | Inl notFound \<Rightarrow> Finish (Return (Some notFound)) st)
      | IdUser \<Rightarrow>
          (case getUserByID e i of
             Inr user \<Rightarrow> Descend idCmd (push_args [AUser user] st)
           | Inl notFound \<Rightarrow> Finish (Return (Some notFound)) st)
      | IdServer \<Rightarrow>
          (case getGuildByID e i of
             Inr guild \<Rightarrow> Descend idCmd (push_args [AServer guild] st)
           | Inl notFound \<Rightarrow> Finish (Return (Some notFound)) st))"

definition match_id :: "env \<Rightarrow> Command \<Rightarrow> ID \<Rightarrow> string \<Rightarrow> exec_state \<Rightarrow> step" where
  "match_id e idCmd idType i st = id_switch e idCmd idType i (push_symbolic ''<id>'' st)"

definition match_number :: "env \<Rightarrow> Command \<Rightarrow> string \<Rightarrow> exec_state \<Rightarrow> step" where
  "match_number e number param st =
     Descend number (push_args [ANumber (js_Number e param)] (push_symbolic ''<number>'' st))"

definition match_any :: "Command \<Rightarrow> string \<Rightarrow> exec_state \<Rightarrow> step" where
  "match_any any param st =
     Descend any (push_args [AString param] (push_symbolic ''<any>'' st))"

text \<open>
  The rest branch: \<^verbatim>\<open>args.unshift(param)\<close> puts the token back, \<^verbatim>\<open>menu.args.push(...args)\<close>
  appends every token and \<^verbatim>\<open>args.join(' ')\<close> is handed over.
\<close>

definition match_rest :: "RestCommand \<Rightarrow> string \<Rightarrow> string list \<Rightarrow> exec_state \<Rightarrow> step" where
  "match_rest any param args st =
     DescendRest any (join '' '' (param # args))
       (push_args (map AString (param # args)) (push_symbolic ''<...>'' st))"

definition no_match :: "string \<Rightarrow> exec_state \<Rightarrow> step" where
  "no_match param st =
     (let st' = push_symbolic ([dquote] @ param @ [dquote]) st in
      Finish (Return (Some (''No valid command sequence matching `''
                            @ md_header (ex_metadata st') @ '' ''
                            @ join '' '' (md_symbolicArgs (ex_metadata st'))
                            @ ''` found.''))) st')"

text \<open>The \<^verbatim>\<open>if\<close> chain of \<^verbatim>\<open>Command.execute\<close>, last guard first.\<close>

definition execute_any :: "Command \<Rightarrow> string \<Rightarrow> string list \<Rightarrow> exec_state \<Rightarrow> step" where
  "execute_any this param args st =
     (case cmd_any this of
        Some (AnyCommand any) \<Rightarrow> match_any any param st
      | Some (AnyRest any) \<Rightarrow> match_rest any param args st
      | None \<Rightarrow> no_match param st)"

definition execute_number :: "env \<Rightarrow> Command \<Rightarrow> string \<Rightarrow> string list \<Rightarrow> exec_state \<Rightarrow> step" where
  "execute_number e this param args st =
     (case cmd_number this of
        Some number \<Rightarrow>
          if \<not> isNaN (js_Number e param) \<and> param \<noteq> ''Infinity'' \<and> param \<noteq> ''-Infinity''
          then match_number e number param st
          else execute_any this param args st
      | None \<Rightarrow> execute_any this param args st)"

definition execute_id :: "env \<Rightarrow> Command \<Rightarrow> string \<Rightarrow> string list \<Rightarrow> exec_state \<Rightarrow> step" where
  "execute_id e this param args st =
     (case cmd_id this of
        None \<Rightarrow> execute_number e this param args st
      | Some idCmd \<Rightarrow>
          (case cmd_idType this of
             None \<Rightarrow> execute_number e this param args st
           | Some idType \<Rightarrow>
               (case patterns_id param of
                  None \<Rightarrow> execute_number e this param args st
                | Some i \<Rightarrow> match_id e idCmd idType i st)))"

definition execute_user :: "env \<Rightarrow> Command \<Rightarrow> string \<Rightarrow> string list \<Rightarrow> exec_state \<Rightarrow> step" where
  "execute_user e this param args st =
     (case cmd_user this of
        None \<Rightarrow> execute_id e this param args st
      | Some userCmd \<Rightarrow>
          (case patterns_user param of
             None \<Rightarrow> execute_id e this param args st
           | Some i \<Rightarrow> match_user e userCmd i st))"

definition execute_message :: "env \<Rightarrow> Command \<Rightarrow> string \<Rightarrow> string list \<Rightarrow> exec_state \<Rightarrow> step" where
  "execute_message e this param args st =
     (case cmd_message this of
        None \<Rightarrow> execute_user e this param args st
      | Some messageCmd \<Rightarrow>
          (case patterns_messageLink param of
             None \<Rightarrow> execute_user e this param args st
           | Some result \<Rightarrow> match_message e messageCmd result st))"

definition execute_channel :: "env \<Rightarrow> Command \<Rightarrow> string \<Rightarrow> string list \<Rightarrow> exec_state \<Rightarrow> step" where
  "execute_channel e this param args st =
     (case cmd_channel this of
        None \<Rightarrow> execute_message e this param args st
      | Some channelCmd \<Rightarrow>
          (case patterns_channel param of
             None \<Rightarrow> execute_message e this param args st
           | Some i \<Rightarrow> match_channel e channelCmd i st))"

definition execute_param :: "env \<Rightarrow> Command \<Rightarrow> string \<Rightarrow> string list \<Rightarrow> exec_state \<Rightarrow> step" where
  "execute_param e this param args st =
     (case map_of (cmd_subcommands this) param of
        Some sub \<Rightarrow> match_subcommand sub param st
      | None \<Rightarrow> execute_channel e this param args st)"

text \<open>
  \<^verbatim>\<open>Command.execute\<close>: the node's overrides first, then the leaf action when no token
  is left, the \<^verbatim>\<open>if\<close> chain on the head token otherwise.
\<close>

fun execute ::
  "env \<Rightarrow> Command \<Rightarrow> string list \<Rightarrow> exec_state \<Rightarrow> string option outcome \<times> exec_state" where
  "execute e this [] st = execute_here e this (inherit_state (cmd_base this) st)"
| "execute e this (param # args) st =
     (case execute_param e this param args (inherit_state (cmd_base this) st) of
        Finish r st' \<Rightarrow> (r, st')
      | Descend next st' \<Rightarrow> execute e next args st'
      | DescendRest rest combined st' \<Rightarrow> RestCommand_execute e rest combined st')"

declare execute.simps [simp del]

text \<open>What \<^verbatim>\<open>execute\<close> does with the outcome of the head token.\<close>

definition follow ::
  "env \<Rightarrow> string list \<Rightarrow> step \<Rightarrow> string option outcome \<times> exec_state" where
  "follow e args s =
     (case s of
        Finish r st' \<Rightarrow> (r, st')
      | Descend next st' \<Rightarrow> execute e next args st'
      | DescendRest rest combined st' \<Rightarrow> RestCommand_execute e rest combined st')"

subsection \<open>The priority order, as the specification words it\<close>

datatype branch =
    BSubcommand | BChannel | BMessage | BUser | BId | BNumber | BAnyCommand | BAnyRest
  | BNoMatch

text \<open>Whether a token fits a branch of a node, whatever the other branches say.\<close>

definition branch_matches :: "env \<Rightarrow> Command \<Rightarrow> string \<Rightarrow> branch \<Rightarrow> bool" where
  "branch_matches e this param b =
     (case b of
        BSubcommand \<Rightarrow> map_of (cmd_subcommands this) param \<noteq> None
      | BChannel \<Rightarrow> cmd_channel this \<noteq> None \<and> patterns_channel param \<noteq> None
      | BMessage \<Rightarrow> cmd_message this \<noteq> None \<and> patterns_messageLink param \<noteq> None
      | BUser \<Rightarrow> cmd_user this \<noteq> None \<and> patterns_user param \<noteq> None
      | BId \<Rightarrow> cmd_id this \<noteq> None \<and> cmd_idType this \<noteq> None \<and> patterns_id param \<noteq> None
      | BNumber \<Rightarrow>
          cmd_number this \<noteq> None \<and> \<not> isNaN (js_Number e param)
          \<and> param \<noteq> ''Infinity'' \<and> param \<noteq> ''-Infinity''
      | BAnyCommand \<Rightarrow> (case cmd_any this of Some (AnyCommand _) \<Rightarrow> True | _ \<Rightarrow> False)
      | BAnyRest \<Rightarrow> (case cmd_any this of Some (AnyRest _) \<Rightarrow> True | _ \<Rightarrow> False)
      | BNoMatch \<Rightarrow> True)"

definition priority :: "branch list" where
  "priority =
     [BSubcommand, BChannel, BMessage, BUser, BId, BNumber, BAnyCommand, BAnyRest, BNoMatch]"

text \<open>The first branch in priority order that the token fits.\<close>

definition selected_branch :: "env \<Rightarrow> Command \<Rightarrow> string \<Rightarrow> branch" where
  "selected_branch e this param =
     (case find (branch_matches e this param) priority of Some b \<Rightarrow> b | None \<Rightarrow> BNoMatch)"

text \<open>
  What taking a given branch does; a branch that the node lacks or that the token does
  not fit does what the absence of any match does.
\<close>

definition take_branch ::
  "env \<Rightarrow> Command \<Rightarrow> branch \<Rightarrow> string \<Rightarrow> string list \<Rightarrow> exec_state \<Rightarrow> step" where
  "take_branch e this b param args st =
     (case b of
        BSubcommand \<Rightarrow>
          (case map_of (cmd_subcommands this) param of
             Some sub \<Rightarrow> match_subcommand sub param st
           | None \<Rightarrow> no_match param st)
      | BChannel \<Rightarrow>
          (case (cmd_channel this, patterns_channel param) of
             (Some c, Some i) \<Rightarrow> match_channel e c i st
           | _ \<Rightarrow> no_match param st)
      | BMessage \<Rightarrow>
          (case (cmd_message this, patterns_messageLink param) of
             (Some c, Some result) \<Rightarrow> match_message e c result st
           | _ \<Rightarrow> no_match param st)
      | BUser \<Rightarrow>
          (case (cmd_user this, patterns_user param) of
             (Some c, Some i) \<Rightarrow> match_user e c i st
           | _ \<Rightarrow> no_match param st)
      | BId \<Rightarrow>
          (case (cmd_id this, cmd_idType this, patterns_id param) of
             (Some c, Some idType, Some i) \<Rightarrow> match_id e c idType i st
           | _ \<Rightarrow> no_match param st)
      | BNumber \<Rightarrow>
          (case cmd_number this of
             Some c \<Rightarrow> match_number e c param st
           | None \<Rightarrow> no_match param st)
      | BAnyCommand \<Rightarrow>
          (case cmd_any this of
             Some (AnyCommand c) \<Rightarrow> match_any c param st
           | _ \<Rightarrow> no_match param st)
      | BAnyRest \<Rightarrow>
          (case cmd_any this of
             Some (AnyRest r) \<Rightarrow> match_rest r param args st
           | _ \<Rightarrow> no_match param st)
      | BNoMatch \<Rightarrow> no_match param st)"

text \<open>A token reaches the number test when no branch before it fits.\<close>

definition reaches_number_test :: "env \<Rightarrow> Command \<Rightarrow> string \<Rightarrow> bool" where
  "reaches_number_test e this param =
     list_all (\<lambda>b. \<not> branch_matches e this param b)
       [BSubcommand, BChannel, BMessage, BUser, BId]"

section \<open>Introspection\<close>

record CommandInfoMetadata =
  im_permission :: int
  im_nsfw :: bool
  im_channelType :: CHANNEL_TYPE
  im_args :: "string list"
  im_usage :: string
  im_originalArgs :: "string list"
  im_header :: string

text \<open>A reference to a \<^verbatim>\<open>BaseCommand\<close>: a command or a rest command.\<close>

datatype node = CommandNode Command | RestNode RestCommand

text \<open>
  \<^verbatim>\<open>CommandInfo\<close>; \<open>ci_metadata\<close> holds the fields that the object spread copies from the
  metadata. The two maps are in insertion order.
\<close>

record CommandInfo =
  ci_command :: node
  ci_keyedSubcommandInfo :: "(string \<times> node) list"
  ci_subcommandInfo :: "(string \<times> node) list"
  ci_metadata :: CommandInfoMetadata

datatype info_result = Info CommandInfo | InfoError string

text \<open>The first four statements of \<^verbatim>\<open>resolveInfoInternal\<close> and of \<^verbatim>\<open>resolveInfoFinale\<close>.\<close>

definition inherit_info :: "BaseCommand \<Rightarrow> CommandInfoMetadata \<Rightarrow> CommandInfoMetadata" where
  "inherit_info this metadata =
     (let m1 = (if permission this \<noteq> - 1 then metadata\<lparr>im_permission := permission this\<rparr>
                else metadata);
          m2 = (case nsfw this of Some v \<Rightarrow> m1\<lparr>im_nsfw := v\<rparr> | None \<Rightarrow> m1);
          m3 = (case channelType this of Some v \<Rightarrow> m2\<lparr>im_channelType := v\<rparr> | None \<Rightarrow> m2)
      in (if usage this \<noteq> [] then m3\<lparr>im_usage := usage this\<rparr> else m3))"

text \<open>
  The loop over \<^verbatim>\<open>this.subcommands.entries()\<close>, keeping the entries whose key is the
  sub-command's name; reading the name of a sub-command that has none throws.
\<close>

fun keyed_entries :: "(string \<times> NamedCommand) list \<Rightarrow> (string \<times> node) list outcome" where
  "keyed_entries [] = Return []"
| "keyed_entries ((tag, command) # entries) =
     (case originalCommandName command of
        None \<Rightarrow> Throw (Error ''originalCommandName must be set before accessing it!'')
      | Some name \<Rightarrow>
          (case keyed_entries entries of
             Throw t \<Rightarrow> Throw t
           | Return kept \<Rightarrow>
               Return (if tag = name then (tag, CommandNode (nc_command command)) # kept
                       else kept)))"

definition idType_string :: "ID option \<Rightarrow> string" where
  "idType_string k = (case k of None \<Rightarrow> ''null'' | Some t \<Rightarrow> ID_string t)"

definition branch_entry :: "string \<Rightarrow> Command option \<Rightarrow> (string \<times> node) list" where
  "branch_entry label branch =
     (case branch of Some c \<Rightarrow> [(label, CommandNode c)] | None \<Rightarrow> [])"

definition generic_entries :: "Command \<Rightarrow> (string \<times> node) list" where
  "generic_entries this =
     branch_entry ''<channel>'' (cmd_channel this)
     @ branch_entry ''<role>'' (cmd_role this)
     @ branch_entry ''<emote>'' (cmd_emote this)
     @ branch_entry ''<message>'' (cmd_message this)
     @ branch_entry ''<user>'' (cmd_user this)
     @ branch_entry (''<id = <'' @ idType_string (cmd_idType this) @ ''>>'') (cmd_id this)
     @ branch_entry ''<number>'' (cmd_number this)
     @ (case cmd_any this of
          Some (AnyCommand any) \<Rightarrow> [(''<any>'', CommandNode any)]
        | Some (AnyRest any) \<Rightarrow> [(''<...>'', RestNode any)]
        | None \<Rightarrow> [])"

text \<open>\<^verbatim>\<open>resolveInfoInternal\<close> once no argument is left.\<close>

definition resolveInfo_here :: "Command \<Rightarrow> CommandInfoMetadata \<Rightarrow> info_result outcome" where
  "resolveInfo_here this metadata =
     (case keyed_entries (cmd_subcommands this) of
        Throw t \<Rightarrow> Throw t
      | Return keyed \<Rightarrow>
          Return (Info \<lparr>ci_command = CommandNode this,
                        ci_keyedSubcommandInfo = keyed,
                        ci_subcommandInfo = generic_entries this,
                        ci_metadata = metadata\<rparr>))"

definition resolveInfoFinale :: "RestCommand \<Rightarrow> CommandInfoMetadata \<Rightarrow> CommandInfo" where
  "resolveInfoFinale this metadata =
     \<lparr>ci_command = RestNode this,
      ci_keyedSubcommandInfo = [],
      ci_subcommandInfo = [],
      ci_metadata = inherit_info (rest_base this) metadata\<rparr>"

definition invalidSubcommandGenerator :: "CommandInfoMetadata \<Rightarrow> info_result" where
  "invalidSubcommandGenerator metadata =
     InfoError (''No subcommand found by the argument list: `''
                @ join '' '' (im_originalArgs metadata) @ ''`'')"

text \<open>
  One token of \<^verbatim>\<open>resolveInfoInternal\<close>: no such branch, or a branch to descend into with
  the label pushed on \<^verbatim>\<open>metadata.args\<close>, or the rest command.
\<close>

datatype info_step = InfoInvalid | InfoDescend string Command | InfoFinale RestCommand

definition descend_if :: "string \<Rightarrow> Command option \<Rightarrow> info_step" where
  "descend_if label branch =
     (case branch of Some c \<Rightarrow> InfoDescend label c | None \<Rightarrow> InfoInvalid)"

definition resolveInfo_param :: "Command \<Rightarrow> string \<Rightarrow> info_step" where
  "resolveInfo_param this param =
     (if param = ''<channel>'' then descend_if ''<channel>'' (cmd_channel this)
      else if param = ''<role>'' then descend_if ''<role>'' (cmd_role this)
      else if param = ''<emote>'' then descend_if ''<emote>'' (cmd_emote this)
      else if param = ''<message>'' then descend_if ''<message>'' (cmd_message this)
      else if param = ''<user>'' then descend_if ''<user>'' (cmd_user this)
      else if param = ''<id>'' then
        descend_if (''<id = <'' @ idType_string (cmd_idType this) @ ''>>'') (cmd_id this)
      else if param = ''<number>'' then descend_if ''<number>'' (cmd_number this)
      else if param = ''<any>'' then
        (case cmd_any this of Some (AnyCommand any) \<Rightarrow> InfoDescend ''<any>'' any | _ \<Rightarrow> InfoInvalid)
      else if param = ''<...>'' then
        (case cmd_any this of Some (AnyRest any) \<Rightarrow> InfoFinale any | _ \<Rightarrow> InfoInvalid)
      else
        (case map_of (cmd_subcommands this) param of
           Some sub \<Rightarrow> InfoDescend param (nc_command sub)
         | None \<Rightarrow> InfoInvalid))"

text \<open>
  \<^verbatim>\<open>resolveInfoInternal\<close>. It shifts the tokens off the array it is given, so the second
  component is what the call leaves in that array.
\<close>

fun resolveInfoInternal ::
  "Command \<Rightarrow> string list \<Rightarrow> CommandInfoMetadata \<Rightarrow> info_result outcome \<times> string list" where
  "resolveInfoInternal this [] metadata =
     (resolveInfo_here this (inherit_info (cmd_base this) metadata), [])"
| "resolveInfoInternal this (param # args) metadata =
     (let metadata' = inherit_info (cmd_base this) metadata in
      case resolveInfo_param this param of
        InfoInvalid \<Rightarrow> (Return (invalidSubcommandGenerator metadata'), args)
      | InfoDescend label next \<Rightarrow>
          resolveInfoInternal next args (metadata'\<lparr>im_args := im_args metadata' @ [label]\<rparr>)
      | InfoFinale rest \<Rightarrow>
          (Return (Info (resolveInfoFinale rest
                           (metadata'\<lparr>im_args := im_args metadata' @ [''<...>'']\<rparr>))),
           args))"

declare resolveInfoInternal.simps [simp del]

text \<open>\<^verbatim>\<open>resolveInfo\<close>: the same array goes on to \<^verbatim>\<open>resolveInfoInternal\<close>; a copy is kept.\<close>

definition resolveInfo ::
  "Command \<Rightarrow> string list \<Rightarrow> string \<Rightarrow> info_result outcome \<times> string list" where
  "resolveInfo this args header =
     resolveInfoInternal this args
       \<lparr>im_permission = 0,
        im_nsfw = False,
        im_channelType = ''TextChannel'',
        im_args = [],
        im_usage = [],
        im_originalArgs = args,
        im_header = header\<rparr>"

text \<open>
  Two calls of \<^verbatim>\<open>resolveInfo\<close> on one array: the second call reads what the first one
  left in it.
\<close>

definition resolveInfo_twice ::
  "Command \<Rightarrow> string list \<Rightarrow> string \<Rightarrow> info_result outcome \<times> info_result outcome" where
  "resolveInfo_twice this args header =
     (let first = resolveInfo this args header in
      (fst first, fst (resolveInfo this (snd first) header)))"

section \<open>The inherited rules along a path\<close>

text \<open>
  The three inherited values: permission, NSFW flag and channel type; and what a node's
  own overrides make of them, each value on its own.
\<close>

type_synonym rules = "int \<times> bool \<times> CHANNEL_TYPE"

definition override :: "BaseCommand \<Rightarrow> rules \<Rightarrow> rules" where
  "override this r =
     (if permission this = - 1 then fst r else permission this,
      case nsfw this of None \<Rightarrow> fst (snd r) | Some v \<Rightarrow> v,
      case channelType this of None \<Rightarrow> snd (snd r) | Some v \<Rightarrow> v)"

definition exec_rules :: "ExecuteCommandMetadata \<Rightarrow> rules" where
  "exec_rules metadata = (md_permission metadata, md_nsfw metadata, md_channelType metadata)"

definition info_rules :: "CommandInfoMetadata \<Rightarrow> rules" where
  "info_rules metadata = (im_permission metadata, im_nsfw metadata, im_channelType metadata)"

text \<open>The values that \<^verbatim>\<open>resolveInfo\<close> and the message handler start from.\<close>

definition root_default :: rules where
  "root_default = (0, False, ''TextChannel'')"

definition step_state :: "step \<Rightarrow> exec_state" where
  "step_state s =
     (case s of Finish r st \<Rightarrow> st | Descend c st \<Rightarrow> st | DescendRest r combined st \<Rightarrow> st)"

text \<open>The nodes that a call of \<open>execute\<close> enters, the first one first.\<close>

fun exec_path :: "env \<Rightarrow> Command \<Rightarrow> string list \<Rightarrow> exec_state \<Rightarrow> BaseCommand list" where
  "exec_path e this [] st = [cmd_base this]"
| "exec_path e this (param # args) st =
     cmd_base this #
     (case execute_param e this param args (inherit_state (cmd_base this) st) of
        Finish r st' \<Rightarrow> []
      | Descend child st' \<Rightarrow> exec_path e child args st'
      | DescendRest rest combined st' \<Rightarrow> [rest_base rest])"

text \<open>The nodes that a call of \<open>resolveInfoInternal\<close> enters.\<close>

fun info_path :: "Command \<Rightarrow> string list \<Rightarrow> BaseCommand list" where
  "info_path this [] = [cmd_base this]"
| "info_path this (param # args) =
     cmd_base this #
     (case resolveInfo_param this param of
        InfoInvalid \<Rightarrow> []
      | InfoDescend label child \<Rightarrow> info_path child args
      | InfoFinale rest \<Rightarrow> [rest_base rest])"

section \<open>Handler failures\<close>



section \<open>Registering sub-commands\<close>

text \<open>
  The constructor of \<^verbatim>\<open>Command\<close> stores references: the sub-command objects live in a
  heap, and both the option object and the map the constructor fills hold addresses.
  \<^verbatim>\<open>Map.set\<close> replaces the value of a key that is present and appends a new key.
\<close>

type_synonym ref = nat

type_synonym heap = "ref \<Rightarrow> NamedCommand"

fun Map_set :: "string \<Rightarrow> ref \<Rightarrow> (string \<times> ref) list \<Rightarrow> (string \<times> ref) list" where
  "Map_set k v [] = [(k, v)]"
| "Map_set k v ((k', v') # m) = (if k = k' then (k, v) # m else (k', v') # Map_set k v m)"

record ctor_state =
  ctor_subcommands :: "(string \<times> ref) list"
  ctor_heap :: heap
  ctor_warnings :: "string list"

definition warn_base :: "string \<Rightarrow> string \<Rightarrow> string" where
  "warn_base alias name =
     [dquote] @ alias @ [dquote] @ '' in subcommand '' @ [dquote] @ name @ [dquote]
     @ '' was attempted to be declared as an alias but it already exists in the base commands! (Look at the next ''
     @ [dquote] @ ''Loading Command'' @ [dquote] @ '' line to see which command is affected.)''"

definition warn_duplicate :: "string \<Rightarrow> string \<Rightarrow> string" where
  "warn_duplicate alias name =
     ''Duplicate alias '' @ [dquote] @ alias @ [dquote] @ '' at subcommand '' @ [dquote] @ name
     @ [dquote] @ ''! (Look at the next '' @ [dquote] @ ''Loading Command'' @ [dquote]
     @ '' line to see which command is affected.)''"

text \<open>The first loop: the base sub-commands.\<close>

fun set_base :: "(string \<times> ref) list \<Rightarrow> (string \<times> ref) list \<Rightarrow> (string \<times> ref) list" where
  "set_base [] m = m"
| "set_base ((name, subcmd) # rest) m = set_base rest (Map_set name subcmd m)"

text \<open>The inner loop over the aliases of one sub-command.\<close>

fun set_aliases ::
  "string list \<Rightarrow> string \<Rightarrow> ref \<Rightarrow> string list \<Rightarrow> ctor_state \<Rightarrow> ctor_state" where
  "set_aliases baseSubcommands name subcmd [] st = st"
| "set_aliases baseSubcommands name subcmd (alias # rest) st =
     set_aliases baseSubcommands name subcmd rest
       (if alias \<in> set baseSubcommands
        then st\<lparr>ctor_warnings := ctor_warnings st @ [warn_base alias name]\<rparr>
        else if map_of (ctor_subcommands st) alias \<noteq> None
        then st\<lparr>ctor_warnings := ctor_warnings st @ [warn_duplicate alias name]\<rparr>
        else st\<lparr>ctor_subcommands := Map_set alias subcmd (ctor_subcommands st)\<rparr>)"

text \<open>The setter of \<^verbatim>\<open>NamedCommand.name\<close>, on the object at an address.\<close>

definition set_name :: "ref \<Rightarrow> string \<Rightarrow> heap \<Rightarrow> heap outcome" where
  "set_name r v h =
     (case originalCommandName (h r) of
        Some _ \<Rightarrow>
          Throw (Error (''originalCommandName cannot be set twice! Attempted to set the value to ''
                        @ [dquote] @ v @ [dquote] @ ''.''))
      | None \<Rightarrow> Return (h(r := NamedCommand (nc_command (h r)) (aliases (h r)) (Some v))))"

text \<open>The second loop: each sub-command is named, then its aliases are bound.\<close>

fun set_names :: "string list \<Rightarrow> (string \<times> ref) list \<Rightarrow> ctor_state \<Rightarrow> ctor_state outcome" where
  "set_names baseSubcommands [] st = Return st"
| "set_names baseSubcommands ((name, subcmd) # rest) st =
     (case set_name subcmd name (ctor_heap st) of
        Throw t \<Rightarrow> Throw t
      | Return h \<Rightarrow>
          set_names baseSubcommands rest
            (set_aliases baseSubcommands name subcmd (aliases (h subcmd))
               (st\<lparr>ctor_heap := h\<rparr>)))"

text \<open>
  The part of the constructor that runs when \<^verbatim>\<open>options.subcommands\<close> is given: its
  entries in enumeration order, with the heap they point into.
\<close>

definition register_subcommands :: "(string \<times> ref) list \<Rightarrow> heap \<Rightarrow> ctor_state outcome" where
  "register_subcommands subcommands h =
     set_names (map fst subcommands) subcommands
       \<lparr>ctor_subcommands = set_base subcommands [], ctor_heap = h, ctor_warnings = []\<rparr>"

text \<open>The first entry, in enumeration order, whose sub-command lists a key as an alias.\<close>

definition first_alias_entry ::
  "heap \<Rightarrow> (string \<times> ref) list \<Rightarrow> string \<Rightarrow> (string \<times> ref) option" where
  "first_alias_entry h subcommands k =
     find (\<lambda>entry. k \<in> set (aliases (h (snd entry)))) subcommands"

section \<open>Example values\<close>

text \<open>
  A concrete environment, menu and state: one channel is known, every caller has every
  permission level, templates are sent as they are, and two numerals are parsed.
\<close>

definition id26 :: string where
  "id26 = ''01ARZ3NDEKTSV4RRFFQ69G5FAV''"

definition env0 :: env where
  "env0 =
     \<lparr>channels_fetch =
        (\<lambda>i. if i = id26 then Some \<lparr>channel_id = id26, channel_type = ''TextChannel''\<rparr>
             else None),
      users_fetch = (\<lambda>i. None),
      servers_get = (\<lambda>i. None),
      fetchMessage = (\<lambda>c i. None),
      channel_toString = (\<lambda>c. ''<#'' @ channel_id c @ ''>''),
      user_toString = (\<lambda>u. ''<@'' @ user_id u @ ''>''),
      hasPermission = (\<lambda>u m p. True),
      getPermissionLevel = (\<lambda>u m. 0),
      getPermissionName = (\<lambda>p. ''User''),
      getPrefix = (\<lambda>s. ''.''),
      parseVars = (\<lambda>template vars fallback. template),
      js_Number =
        (\<lambda>s. if s = ''42'' then Finite 42
             else if s = ''Infinity'' then Infinity
             else if s = ''-Infinity'' then NegInfinity
             else NaN)\<rparr>"

definition menu0 :: CommandMenu where
  "menu0 =
     \<lparr>menu_args = [],
      menu_message = \<lparr>message_id = ''m''\<rparr>,
      menu_channel = Obj \<lparr>channel_id = ''c'', channel_type = ''TextChannel''\<rparr>,
      menu_server = Obj \<lparr>server_id = ''s'', roles = Some []\<rparr>,
      menu_author = Obj \<lparr>user_id = ''u''\<rparr>,
      menu_member = Obj \<lparr>member_id = ''u''\<rparr>,
      menu_send = (\<lambda>text. None)\<rparr>"

definition metadata0 :: ExecuteCommandMetadata where
  "metadata0 =
     \<lparr>md_header = ''cmd'',
      md_args = [],
      md_permission = 0,
      md_nsfw = False,
      md_channelType = ''TextChannel'',
      md_symbolicArgs = []\<rparr>"

definition state0 :: exec_state where
  "state0 = \<lparr>ex_menu = menu0, ex_metadata = metadata0, ex_sent = [], ex_console = []\<rparr>"

text \<open>A \<^verbatim>\<open>BaseCommand\<close> built without options, and a command with a leaf action only.\<close>

definition plain :: BaseCommand where
  "plain =
     \<lparr>description = ''No description.'', usage = [], permission = - 1, nsfw = None,
      channelType = None\<rparr>"

definition leaf :: "Run \<Rightarrow> Command" where
  "leaf run = Command plain run [] None None None None None None None None None None"

text \<open>A node whose sub-command is named like a channel mention, with a channel branch.\<close>

definition mention0 :: string where
  "mention0 = ''<#'' @ id26 @ ''>''"

definition root_mention :: Command where
  "root_mention =
     Command plain (RunString ''root'')
       [(mention0, NamedCommand (leaf (RunString ''named'')) [] (Some mention0))]
       (Some (leaf (RunString ''channel''))) None None None None None None None None None"

text \<open>The menu that the message handler builds for a direct message.\<close>

definition menu_dm :: CommandMenu where
  "menu_dm =
     \<lparr>menu_args = [],
      menu_message = \<lparr>message_id = ''m''\<rparr>,
      menu_channel = Obj \<lparr>channel_id = ''d'', channel_type = ''DirectMessage''\<rparr>,
      menu_server = Undefined,
      menu_author = Obj \<lparr>user_id = ''u''\<rparr>,
      menu_member = Undefined,
      menu_send = (\<lambda>text. None)\<rparr>"

text \<open>
  Handlers that resolve only when they are handed the expected arguments, and nodes
  that hold them.
\<close>

definition rest_handler0 :: "CommandMenu \<Rightarrow> string \<Rightarrow> thrown option" where
  "rest_handler0 menu combined =
     (if combined = ''a b c'' \<and> menu_args menu = [AString ''a'', AString ''b'', AString ''c'']
      then None
      else Some (ThrownValue NoStack (Text ''unexpected'')))"

definition root_rest :: Command where
  "root_rest =
     Command plain (RunString ''root'') [] None None None None None None None None None
       (Some (AnyRest (RestCommand plain (RestRunFn rest_handler0))))"

definition number_handler0 :: "CommandMenu \<Rightarrow> thrown option" where
  "number_handler0 menu =
     (if menu_args menu = [ANumber (Finite 42)] then None
      else Some (ThrownValue NoStack (Text ''unexpected'')))"

definition root_number :: Command where
  "root_number =
     Command plain (RunString ''root'') [] None None None None None None None None
       (Some (leaf (RunFn number_handler0))) None"

text \<open>An ID that the environment does not know, and a node with four kinds of branch.\<close>

definition id26b :: string where
  "id26b = ''01BX5ZZKBKACTAV9WEVGEMMVRZ''"

definition mention_b :: string where
  "mention_b = ''<#'' @ id26b @ ''>''"

definition root_lookup :: Command where
  "root_lookup =
     Command plain (RunString ''root'') []
       (Some (leaf (RunString ''channel''))) None None None None None None None
       (Some (leaf (RunString ''number'')))
       (Some (AnyCommand (leaf (RunString ''any''))))"

text \<open>A root with one named sub-command.\<close>

definition ping :: NamedCommand where
  "ping = NamedCommand (leaf (RunString ''pong'')) [] (Some ''ping'')"

definition root_ping :: Command where
  "root_ping =
     Command plain (RunString ''root'') [(''ping'', ping)]
       None None None None None None None None None None"

text \<open>What \<^verbatim>\<open>resolveInfo\<close> says of the sub-command, asked at the root under header \<^verbatim>\<open>h\<close>.\<close>

definition info_ping :: CommandInfo where
  "info_ping =
     \<lparr>ci_command = CommandNode (leaf (RunString ''pong'')),
      ci_keyedSubcommandInfo = [],
      ci_subcommandInfo = [],
      ci_metadata =
        \<lparr>im_permission = 0, im_nsfw = False, im_channelType = ''TextChannel'',
         im_args = [''ping''], im_usage = [], im_originalArgs = [''ping''],
         im_header = ''h''\<rparr>\<rparr>"

text \<open>
  A parent that overrides nothing, with a sub-command that requires permission level 5
  and a direct message.
\<close>

definition strict :: BaseCommand where
  "strict = plain\<lparr>permission := 5, channelType := Some ''DirectMessage''\<rparr>"

definition admin :: Command where
  "admin =
     Command strict (RunString ''done'') [] None None None None None None None None None None"

definition root_strict :: Command where
  "root_strict =
     Command plain (RunString ''root'') [(''admin'', NamedCommand admin [] (Some ''admin''))]
       None None None None None None None None None None"

definition info_admin :: CommandInfo where
  "info_admin =
     \<lparr>ci_command = CommandNode admin,
      ci_keyedSubcommandInfo = [],
      ci_subcommandInfo = [],
      ci_metadata =
        \<lparr>im_permission = 5, im_nsfw = False, im_channelType = ''DirectMessage'',
         im_args = [''admin''], im_usage = [], im_originalArgs = [''admin''],
         im_header = ''h''\<rparr>\<rparr>"





text \<open>
  Three sub-command objects at addresses 0, 1 and 2: \<^verbatim>\<open>list\<close> with the aliases \<^verbatim>\<open>ls\<close> and
  \<^verbatim>\<open>show\<close>, \<^verbatim>\<open>show\<close> with the alias \<^verbatim>\<open>ls\<close>, and \<^verbatim>\<open>other\<close> without aliases.
\<close>

definition heap0 :: heap where
  "heap0 r =
     (if r = 0 then NamedCommand (leaf (RunString ''list'')) [''ls'', ''show''] None
      else if r = 1 then NamedCommand (leaf (RunString ''show'')) [''ls''] None
      else NamedCommand (leaf (RunString ''other'')) [] None)"

definition subcommands0 :: "(string \<times> ref) list" where
  "subcommands0 = [(''list'', 0), (''show'', 1)]"

text \<open>The state that registering them leaves.\<close>

definition registered0 :: ctor_state where
  "registered0 =
     (case register_subcommands subcommands0 heap0 of
        Return st \<Rightarrow> st
      | Throw t \<Rightarrow> \<lparr>ctor_subcommands = [], ctor_heap = heap0, ctor_warnings = []\<rparr>)"

section \<open>Properties of the permission gate\<close>

lemma canExecute_permission_not_nsfw:
  "canExecute_permission e menu md \<noteq> Return (Some nsfw_message)"
  by (simp add: canExecute_permission_def permission_message_def nsfw_message_def Let_def)

lemma canExecute_nsfw_not_nsfw:
  "canExecute_nsfw e menu md \<noteq> Return (Some nsfw_message)"
  by (cases "menu_channel menu")
     (simp_all add: canExecute_nsfw_def menu_channel_type_def truthy_def
        canExecute_permission_not_nsfw)

lemma channel_messages_not_nsfw:
  "''This command must be executed in a server.'' \<noteq> nsfw_message"
  "''This command must be executed as a direct message.'' \<noteq> nsfw_message"
  by (simp_all add: nsfw_message_def)

text \<open>
  Claim C3. Whatever the menu and the metadata, \<open>canExecute\<close> never returns the NSFW
  message: when \<^verbatim>\<open>metadata.nsfw\<close> is set, reading \<^verbatim>\<open>menu.channel.channel_type\<close> throws
  unless the channel is an object, and \<^verbatim>\<open>!menu.channel\<close> is false when it is one.
\<close>

theorem nsfw_rejection_unreachable:
  "canExecute e menu md \<noteq> Return (Some nsfw_message)"
  by (cases "menu_channel menu")
     (simp_all add: canExecute_def menu_channel_type_def canExecute_nsfw_not_nsfw
        channel_messages_not_nsfw)

text \<open>
  An instance: a command marked NSFW, called in a server text channel, passes the gate.
\<close>

theorem nsfw_rejection_unreachable_witness:
  "canExecute env0 menu0 (metadata0\<lparr>md_nsfw := True\<rparr>) = Return None
   \<and> canExecute env0 menu0 (metadata0\<lparr>md_nsfw := True\<rparr>) \<noteq> Return (Some nsfw_message)"
  using nsfw_rejection_unreachable [of env0 menu0 "metadata0\<lparr>md_nsfw := True\<rparr>"]
  by (simp add: canExecute_def canExecute_nsfw_def canExecute_permission_def
      menu_channel_type_def truthy_def env0_def menu0_def metadata0_def)

lemma nsfw_step_not_dm_message:
  "canExecute_nsfw e menu md
     \<noteq> Return (Some ''This command must be executed as a direct message.'')"
  by (cases "menu_channel menu")
     (simp_all add: canExecute_nsfw_def menu_channel_type_def truthy_def nsfw_message_def
        canExecute_permission_def permission_message_def Let_def)

text \<open>
  Claim C4, as the code has it. For a command that requires a direct message, called
  with a channel object, \<open>canExecute\<close> returns the channel-type message exactly when
  the channel is no direct message or \<^verbatim>\<open>menu.server\<close> or \<^verbatim>\<open>menu.member\<close> is not \<^verbatim>\<open>null\<close>,
  whatever the NSFW flag and the permission level say. A server or member that is
  \<^verbatim>\<open>undefined\<close>, which is how the menu's type and the message handler hold an absent
  one, is not \<^verbatim>\<open>null\<close>: the call is rejected although it is a direct message with no
  server and no member.
\<close>

theorem direct_message_gate:
  assumes "md_channelType md = ''DirectMessage''" and "menu_channel menu = Obj c"
  shows "(canExecute e menu md
            = Return (Some ''This command must be executed as a direct message.''))
         = (channel_type c \<noteq> ''DirectMessage'' \<or> menu_server menu \<noteq> Null
            \<or> menu_member menu \<noteq> Null)"
  using assms nsfw_step_not_dm_message [of e menu md]
  by (auto simp: canExecute_def menu_channel_type_def)

theorem direct_message_gate_witness:
  "md_channelType (metadata0\<lparr>md_channelType := ''DirectMessage''\<rparr>) = ''DirectMessage''
   \<and> menu_channel menu_dm = Obj \<lparr>channel_id = ''d'', channel_type = ''DirectMessage''\<rparr>
   \<and> menu_server menu_dm = Undefined \<and> menu_member menu_dm = Undefined
   \<and> canExecute env0 menu_dm (metadata0\<lparr>md_channelType := ''DirectMessage''\<rparr>)
       = Return (Some ''This command must be executed as a direct message.'')"
  using direct_message_gate [of "metadata0\<lparr>md_channelType := ''DirectMessage''\<rparr>" menu_dm
      "\<lparr>channel_id = ''d'', channel_type = ''DirectMessage''\<rparr>" env0]
  by (simp add: menu_dm_def metadata0_def)

section \<open>Properties of the execution\<close>

lemma execute_Cons:
  "execute e this (param # args) st =
     follow e args (execute_param e this param args (inherit_state (cmd_base this) st))"
  by (simp add: follow_def execute.simps)

lemma selected_cases:
  "selected_branch e this param =
    (if branch_matches e this param BSubcommand then BSubcommand
     else if branch_matches e this param BChannel then BChannel
     else if branch_matches e this param BMessage then BMessage
     else if branch_matches e this param BUser then BUser
     else if branch_matches e this param BId then BId
     else if branch_matches e this param BNumber then BNumber
     else if branch_matches e this param BAnyCommand then BAnyCommand
     else if branch_matches e this param BAnyRest then BAnyRest
     else BNoMatch)"
  by (simp add: selected_branch_def priority_def)

lemma stage_any:
  "execute_any this param args st =
     take_branch e this
       (if branch_matches e this param BAnyCommand then BAnyCommand
        else if branch_matches e this param BAnyRest then BAnyRest
        else BNoMatch) param args st"
  by (simp add: execute_any_def take_branch_def branch_matches_def
      split: option.splits AnyBranch.splits)

lemma stage_number:
  "execute_number e this param args st =
     (if branch_matches e this param BNumber then take_branch e this BNumber param args st
      else execute_any this param args st)"
  by (simp add: execute_number_def take_branch_def branch_matches_def split: option.splits)

lemma stage_id:
  "execute_id e this param args st =
     (if branch_matches e this param BId then take_branch e this BId param args st
      else execute_number e this param args st)"
  by (simp add: execute_id_def take_branch_def branch_matches_def split: option.splits)

lemma stage_user:
  "execute_user e this param args st =
     (if branch_matches e this param BUser then take_branch e this BUser param args st
      else execute_id e this param args st)"
  by (simp add: execute_user_def take_branch_def branch_matches_def split: option.splits)

lemma stage_message:
  "execute_message e this param args st =
     (if branch_matches e this param BMessage then take_branch e this BMessage param args st
      else execute_user e this param args st)"
  by (simp add: execute_message_def take_branch_def branch_matches_def split: option.splits)

lemma stage_channel:
  "execute_channel e this param args st =
     (if branch_matches e this param BChannel then take_branch e this BChannel param args st
      else execute_message e this param args st)"
  by (simp add: execute_channel_def take_branch_def branch_matches_def split: option.splits)

lemma stage_subcommand:
  "execute_param e this param args st =
     (if branch_matches e this param BSubcommand
      then take_branch e this BSubcommand param args st
      else execute_channel e this param args st)"
  by (simp add: execute_param_def take_branch_def branch_matches_def split: option.splits)

lemma execute_param_selected:
  "execute_param e this param args st =
     take_branch e this (selected_branch e this param) param args st"
  by (simp add: selected_cases stage_subcommand stage_channel stage_message stage_user
      stage_id stage_number stage_any [of _ _ _ _ e])

lemma selected_first:
  "\<exists>before after. priority = before @ selected_branch e this param # after
     \<and> branch_matches e this param (selected_branch e this param)
     \<and> list_all (\<lambda>b. \<not> branch_matches e this param b) before"
proof (cases "find (branch_matches e this param) priority")
  case None
  then have "\<not> (\<exists>x. x \<in> set priority \<and> branch_matches e this param x)"
    by (simp add: find_None_iff)
  then have "\<not> branch_matches e this param BNoMatch"
    by (auto simp: priority_def)
  then show ?thesis by (simp add: branch_matches_def)
next
  case (Some b)
  then obtain i where i: "i < length priority" "branch_matches e this param (priority ! i)"
    "b = priority ! i" "\<forall>j<i. \<not> branch_matches e this param (priority ! j)"
    by (auto simp: find_Some_iff)
  have sel: "selected_branch e this param = priority ! i"
    by (simp add: selected_branch_def Some i(3))
  have split: "priority = take i priority @ priority ! i # drop (Suc i) priority"
    using i(1) by (simp add: id_take_nth_drop)
  have pre: "list_all (\<lambda>b. \<not> branch_matches e this param b) (take i priority)"
    using i(1,4) by (auto simp: list_all_iff in_set_conv_nth)
  have "priority = take i priority @ selected_branch e this param # drop (Suc i) priority
     \<and> branch_matches e this param (selected_branch e this param)
     \<and> list_all (\<lambda>b. \<not> branch_matches e this param b) (take i priority)"
    using split i(2) pre unfolding sel by blast
  then show ?thesis by blast
qed

text \<open>
  Claim C1. On a non-empty token list, \<open>execute\<close> applies the node's overrides and then
  does what the first branch that fits the head token does, in the order sub-command,
  channel mention, message link, user mention, bare ID, number, any as a command, any as
  a rest command, no match; the branches before the selected one do not fit and the
  ones after it are not looked at. A token that is both a sub-command's name and a
  channel mention goes to the sub-command, with the token itself pushed on the symbolic
  arguments.
\<close>

theorem execute_priority_order:
  "execute e this (param # args) st =
     follow e args
       (take_branch e this (selected_branch e this param) param args
          (inherit_state (cmd_base this) st))
   \<and> (\<exists>before after. priority = before @ selected_branch e this param # after
        \<and> branch_matches e this param (selected_branch e this param)
        \<and> list_all (\<lambda>b. \<not> branch_matches e this param b) before)
   \<and> (branch_matches e this param BSubcommand \<and> branch_matches e this param BChannel \<longrightarrow>
        (\<exists>sub. map_of (cmd_subcommands this) param = Some sub
           \<and> execute e this (param # args) st =
               execute e (nc_command sub) args
                 (push_symbolic param (inherit_state (cmd_base this) st))))"
proof (intro conjI impI)
  show "execute e this (param # args) st =
     follow e args
       (take_branch e this (selected_branch e this param) param args
          (inherit_state (cmd_base this) st))"
    by (simp only: execute_Cons execute_param_selected)
  show "\<exists>before after. priority = before @ selected_branch e this param # after
        \<and> branch_matches e this param (selected_branch e this param)
        \<and> list_all (\<lambda>b. \<not> branch_matches e this param b) before"
    by (rule selected_first)
next
  assume "branch_matches e this param BSubcommand \<and> branch_matches e this param BChannel"
  then obtain sub where sub: "map_of (cmd_subcommands this) param = Some sub"
    by (auto simp: branch_matches_def)
  then have "execute e this (param # args) st =
      execute e (nc_command sub) args (push_symbolic param (inherit_state (cmd_base this) st))"
    by (simp add: execute.simps execute_param_def match_subcommand_def)
  with sub show "\<exists>sub. map_of (cmd_subcommands this) param = Some sub
           \<and> execute e this (param # args) st =
               execute e (nc_command sub) args
                 (push_symbolic param (inherit_state (cmd_base this) st))"
    by blast
qed

lemma leaf_template_runs:
  "execute env0 (leaf (RunString t)) [] (push_symbolic s (inherit_state plain state0))
     = (Return None,
        (push_symbolic s (inherit_state plain state0))\<lparr>ex_sent := [t]\<rparr>)"
  by (simp add: execute.simps leaf_def execute_here_def inherit_state_def inherit_def plain_def
      state0_def push_symbolic_def canExecute_def metadata0_def menu0_def
      menu_channel_type_def canExecute_nsfw_def canExecute_permission_def env0_def
      send_template_def)

theorem execute_priority_order_witness:
  "branch_matches env0 root_mention mention0 BSubcommand
   \<and> branch_matches env0 root_mention mention0 BChannel
   \<and> fst (execute env0 root_mention [mention0] state0) = Return None
   \<and> ex_sent (snd (execute env0 root_mention [mention0] state0)) = [''named'']
   \<and> md_symbolicArgs (ex_metadata (snd (execute env0 root_mention [mention0] state0)))
       = [mention0]"
proof -
  have m1: "branch_matches env0 root_mention mention0 BSubcommand"
    by (simp add: branch_matches_def root_mention_def)
  have m2: "branch_matches env0 root_mention mention0 BChannel"
    by (simp add: branch_matches_def root_mention_def mention0_def id26_def
        patterns_channel_def word_run_def is_word_char_def)
  have sub: "map_of (cmd_subcommands root_mention) mention0
      = Some (NamedCommand (leaf (RunString ''named'')) [] (Some mention0))"
    by (simp add: root_mention_def)
  have base: "cmd_base root_mention = plain"
    by (simp add: root_mention_def)
  from execute_priority_order [of env0 root_mention mention0 "[]" state0] m1 m2
  obtain sub' where "map_of (cmd_subcommands root_mention) mention0 = Some sub'"
    and "execute env0 root_mention [mention0] state0 =
      execute env0 (nc_command sub') []
        (push_symbolic mention0 (inherit_state (cmd_base root_mention) state0))"
    by blast
  with sub base have "execute env0 root_mention [mention0] state0 =
      execute env0 (leaf (RunString ''named'')) []
        (push_symbolic mention0 (inherit_state plain state0))"
    by simp
  then have run: "execute env0 root_mention [mention0] state0 =
      (Return None, (push_symbolic mention0 (inherit_state plain state0))\<lparr>ex_sent := [''named'']\<rparr>)"
    by (simp only: leaf_template_runs)
  have sym: "md_symbolicArgs (ex_metadata (push_symbolic mention0 (inherit_state plain state0)))
      = [mention0]"
    by (simp add: push_symbolic_def inherit_state_def inherit_def plain_def state0_def
        metadata0_def)
  show ?thesis
    using m1 m2 sym by (simp add: run)
qed

lemma take_rest:
  "cmd_any this = Some (AnyRest r) \<Longrightarrow>
   take_branch e this BAnyRest param args st = match_rest r param args st"
  by (simp add: take_branch_def)

lemma RestCommand_execute_handler:
  "rest_run r = RestRunFn h \<Longrightarrow>
   canExecute e (ex_menu (inherit_state (rest_base r) s))
     (ex_metadata (inherit_state (rest_base r) s)) = Return None \<Longrightarrow>
   RestCommand_execute e r combined s =
     (case h (ex_menu (inherit_state (rest_base r) s)) combined of
        None \<Rightarrow> (Return None, inherit_state (rest_base r) s)
      | Some error \<Rightarrow> catch_handler error (inherit_state (rest_base r) s))"
  by (simp add: RestCommand_execute_def Let_def)

text \<open>
  Claim C5. When the rest branch is the first branch that fits the head token,
  \<open>execute\<close> hands the rest command every remaining token, the head token first,
  joined with single spaces, appends the same tokens to \<^verbatim>\<open>menu.args\<close>, pushes
  \<^verbatim>\<open><...>\<close> on the symbolic arguments and returns what the rest command returns; a rest
  handler is called with that menu and that string once the gate has passed.
\<close>

theorem rest_branch_receives_tokens:
  assumes sel: "selected_branch e this param = BAnyRest"
    and any: "cmd_any this = Some (AnyRest r)"
    and st1: "st1 = inherit_state (rest_base r)
                (push_args (map AString (param # args))
                   (push_symbolic ''<...>'' (inherit_state (cmd_base this) st)))"
  shows "execute e this (param # args) st =
           RestCommand_execute e r (join '' '' (param # args))
             (push_args (map AString (param # args))
                (push_symbolic ''<...>'' (inherit_state (cmd_base this) st)))
         \<and> menu_args (ex_menu st1) = menu_args (ex_menu st) @ map AString (param # args)
         \<and> (rest_run r = RestRunFn h
              \<and> canExecute e (ex_menu st1) (ex_metadata st1) = Return None \<longrightarrow>
             execute e this (param # args) st =
               (case h (ex_menu st1) (join '' '' (param # args)) of
                  None \<Rightarrow> (Return None, st1)
                | Some error \<Rightarrow> catch_handler error st1))"
proof (intro conjI impI)
  show run: "execute e this (param # args) st =
           RestCommand_execute e r (join '' '' (param # args))
             (push_args (map AString (param # args))
                (push_symbolic ''<...>'' (inherit_state (cmd_base this) st)))"
    by (simp add: execute_Cons execute_param_selected sel take_rest [OF any] match_rest_def
        follow_def)
  show "menu_args (ex_menu st1) = menu_args (ex_menu st) @ map AString (param # args)"
    by (simp add: st1 inherit_state_def push_args_def push_symbolic_def)
  assume "rest_run r = RestRunFn h \<and> canExecute e (ex_menu st1) (ex_metadata st1) = Return None"
  then have "rest_run r = RestRunFn h"
    and "canExecute e (ex_menu st1) (ex_metadata st1) = Return None"
    by blast+
  then show "execute e this (param # args) st =
               (case h (ex_menu st1) (join '' '' (param # args)) of
                  None \<Rightarrow> (Return None, st1)
                | Some error \<Rightarrow> catch_handler error st1)"
    unfolding run st1 by (rule RestCommand_execute_handler)
qed

theorem rest_branch_receives_tokens_witness:
  "selected_branch env0 root_rest ''a'' = BAnyRest
   \<and> join '' '' [''a'', ''b'', ''c''] = ''a b c''
   \<and> execute env0 root_rest [''a'', ''b'', ''c''] state0 =
       RestCommand_execute env0 (RestCommand plain (RestRunFn rest_handler0)) ''a b c''
         (push_args [AString ''a'', AString ''b'', AString ''c'']
            (push_symbolic ''<...>'' (inherit_state plain state0)))
   \<and> fst (execute env0 root_rest [''a'', ''b'', ''c''] state0) = Return None"
proof -
  let ?r = "RestCommand plain (RestRunFn rest_handler0)"
  let ?st1 = "inherit_state (rest_base ?r)
                (push_args (map AString [''a'', ''b'', ''c''])
                   (push_symbolic ''<...>'' (inherit_state (cmd_base root_rest) state0)))"
  have sel: "selected_branch env0 root_rest ''a'' = BAnyRest"
    by (simp add: selected_cases branch_matches_def root_rest_def isNaN_def env0_def
        patterns_channel_def patterns_user_def patterns_id_def patterns_messageLink_def
        word_run_def)
  have any: "cmd_any root_rest = Some (AnyRest ?r)"
    by (simp add: root_rest_def)
  have base: "cmd_base root_rest = plain"
    by (simp add: root_rest_def)
  have gate: "canExecute env0 (ex_menu ?st1) (ex_metadata ?st1) = Return None"
    by (simp add: base inherit_state_def push_args_def push_symbolic_def inherit_def plain_def
        state0_def metadata0_def menu0_def canExecute_def canExecute_nsfw_def
        canExecute_permission_def menu_channel_type_def env0_def)
  have handler: "rest_handler0 (ex_menu ?st1) (join '' '' [''a'', ''b'', ''c'']) = None"
    by (simp add: base rest_handler0_def inherit_state_def push_args_def push_symbolic_def
        state0_def menu0_def)
  note inst = rest_branch_receives_tokens [OF sel any refl, of "[''b'', ''c'']" state0 rest_handler0]
  have run: "rest_run ?r = RestRunFn rest_handler0"
    by simp
  from inst run gate have "execute env0 root_rest [''a'', ''b'', ''c''] state0 =
      (case rest_handler0 (ex_menu ?st1) (join '' '' [''a'', ''b'', ''c'']) of
         None \<Rightarrow> (Return None, ?st1) | Some error \<Rightarrow> catch_handler error ?st1)"
    by blast
  then have res: "fst (execute env0 root_rest [''a'', ''b'', ''c''] state0) = Return None"
    by (simp only: handler option.case fst_conv)
  from inst have "execute env0 root_rest [''a'', ''b'', ''c''] state0 =
       RestCommand_execute env0 ?r (join '' '' [''a'', ''b'', ''c''])
         (push_args (map AString [''a'', ''b'', ''c''])
            (push_symbolic ''<...>'' (inherit_state (cmd_base root_rest) state0)))"
    by blast
  then have eq: "execute env0 root_rest [''a'', ''b'', ''c''] state0 =
       RestCommand_execute env0 ?r ''a b c''
         (push_args [AString ''a'', AString ''b'', AString ''c'']
            (push_symbolic ''<...>'' (inherit_state plain state0)))"
    by (simp add: base)
  show ?thesis using sel res eq by simp
qed

lemma follow_Finish: "follow e args (Finish r st) = (r, st)"
  by (simp add: follow_def)

lemma execute_selected:
  "execute e this (param # args) st =
     follow e args
       (take_branch e this (selected_branch e this param) param args
          (inherit_state (cmd_base this) st))"
  by (simp only: execute_Cons execute_param_selected)

lemma selected_matches:
  "branch_matches e this param (selected_branch e this param)"
  using selected_first [of e this param] by blast

text \<open>
  Claim C6. When the first branch that fits the head token is a lookup branch (channel
  mention, message link, user mention, or bare ID of kind channel, message, user or
  server) and the lookup answers with a not-found string, \<open>execute\<close> returns exactly
  that string. No branch of lower priority is looked at, whatever the node holds, and
  the state is the one after the node's overrides (with \<^verbatim>\<open><id>\<close> pushed in the bare-ID
  case).
\<close>

theorem lookup_failure_aborts:
  assumes st': "st' = inherit_state (cmd_base this) st"
  shows
  "(selected_branch e this param = BChannel \<and> patterns_channel param = Some i
      \<and> getChannelByID e i = Inl notFound
    \<longrightarrow> execute e this (param # args) st = (Return (Some notFound), st'))
   \<and> (selected_branch e this param = BMessage \<and> patterns_messageLink param = Some result
      \<and> getMessageByID e (ChannelID (fst result)) (snd result) = Inl notFound
    \<longrightarrow> execute e this (param # args) st = (Return (Some notFound), st'))
   \<and> (selected_branch e this param = BUser \<and> patterns_user param = Some i
      \<and> getUserByID e i = Inl notFound
    \<longrightarrow> execute e this (param # args) st = (Return (Some notFound), st'))
   \<and> (selected_branch e this param = BId \<and> patterns_id param = Some i
      \<and> (cmd_idType this = Some IdChannel \<and> getChannelByID e i = Inl notFound
         \<or> cmd_idType this = Some IdMessage
            \<and> getMessageByID e (ChannelRef (menu_channel (ex_menu st))) i = Inl notFound
         \<or> cmd_idType this = Some IdUser \<and> getUserByID e i = Inl notFound
         \<or> cmd_idType this = Some IdServer \<and> getGuildByID e i = Inl notFound)
    \<longrightarrow> execute e this (param # args) st
          = (Return (Some notFound), push_symbolic ''<id>'' st'))"
proof (intro conjI impI)
  assume a: "selected_branch e this param = BChannel \<and> patterns_channel param = Some i
      \<and> getChannelByID e i = Inl notFound"
  with selected_matches [of e this param] obtain c where "cmd_channel this = Some c"
    by (auto simp: branch_matches_def)
  with a show "execute e this (param # args) st = (Return (Some notFound), st')"
    by (simp add: execute_selected take_branch_def match_channel_def follow_Finish st')
next
  assume a: "selected_branch e this param = BMessage \<and> patterns_messageLink param = Some result
      \<and> getMessageByID e (ChannelID (fst result)) (snd result) = Inl notFound"
  with selected_matches [of e this param] obtain c where "cmd_message this = Some c"
    by (auto simp: branch_matches_def)
  with a show "execute e this (param # args) st = (Return (Some notFound), st')"
    by (simp add: execute_selected take_branch_def match_message_def follow_Finish st')
next
  assume a: "selected_branch e this param = BUser \<and> patterns_user param = Some i
      \<and> getUserByID e i = Inl notFound"
  with selected_matches [of e this param] obtain c where "cmd_user this = Some c"
    by (auto simp: branch_matches_def)
  with a show "execute e this (param # args) st = (Return (Some notFound), st')"
    by (simp add: execute_selected take_branch_def match_user_def follow_Finish st')
next
  assume a: "selected_branch e this param = BId \<and> patterns_id param = Some i
      \<and> (cmd_idType this = Some IdChannel \<and> getChannelByID e i = Inl notFound
         \<or> cmd_idType this = Some IdMessage
            \<and> getMessageByID e (ChannelRef (menu_channel (ex_menu st))) i = Inl notFound
         \<or> cmd_idType this = Some IdUser \<and> getUserByID e i = Inl notFound
         \<or> cmd_idType this = Some IdServer \<and> getGuildByID e i = Inl notFound)"
  with selected_matches [of e this param] obtain c where c: "cmd_id this = Some c"
    by (auto simp: branch_matches_def)
  have menu: "menu_channel (ex_menu (push_symbolic ''<id>'' st')) = menu_channel (ex_menu st)"
    by (simp add: st' push_symbolic_def inherit_state_def)
  from a c menu show "execute e this (param # args) st
          = (Return (Some notFound), push_symbolic ''<id>'' st')"
    by (auto simp: execute_selected take_branch_def match_id_def id_switch_def follow_Finish
        st' [symmetric])
qed


theorem lookup_failure_aborts_witness:
  "selected_branch env0 root_lookup mention_b = BChannel
   \<and> patterns_channel mention_b = Some id26b
   \<and> getChannelByID env0 id26b = Inl (''No channel found by the ID of `'' @ id26b @ ''`!'')
   \<and> execute env0 root_lookup [mention_b] state0
       = (Return (Some (''No channel found by the ID of `'' @ id26b @ ''`!'')),
          inherit_state (cmd_base root_lookup) state0)"
proof -
  have pat: "patterns_channel mention_b = Some id26b"
    by (simp add: patterns_channel_def mention_b_def id26b_def word_run_def is_word_char_def)
  have "\<not> branch_matches env0 root_lookup mention_b BSubcommand"
    by (simp add: branch_matches_def root_lookup_def)
  moreover have "branch_matches env0 root_lookup mention_b BChannel"
    by (simp add: branch_matches_def pat) (simp add: root_lookup_def)
  ultimately have sel: "selected_branch env0 root_lookup mention_b = BChannel"
    by (simp add: selected_cases)
  have look: "getChannelByID env0 id26b
      = Inl (''No channel found by the ID of `'' @ id26b @ ''`!'')"
    by (simp add: getChannelByID_def env0_def id26b_def id26_def)
  from lookup_failure_aborts [OF refl, of env0 root_lookup mention_b id26b
      "''No channel found by the ID of `'' @ id26b @ ''`!''" "[]" state0]
    sel pat look
  have "execute env0 root_lookup [mention_b] state0
       = (Return (Some (''No channel found by the ID of `'' @ id26b @ ''`!'')),
          inherit_state (cmd_base root_lookup) state0)"
    by blast
  with sel pat look show ?thesis by blast
qed

lemma reaches_number_step:
  "reaches_number_test e this param \<Longrightarrow>
   execute_param e this param args st = execute_number e this param args st"
  by (simp add: reaches_number_test_def stage_subcommand stage_channel stage_message
      stage_user stage_id)

lemma match_number_not_any:
  "execute_any this param args st \<noteq> match_number e n param st"
proof -
  have sym: "md_symbolicArgs (ex_metadata (push_args vs (push_symbolic s st)))
      = md_symbolicArgs (ex_metadata st) @ [s]" for vs s
    by (simp add: push_args_def push_symbolic_def)
  have "match_any c param st \<noteq> match_number e n param st" for c
  proof
    assume "match_any c param st = match_number e n param st"
    then have "push_args [AString param] (push_symbolic ''<any>'' st)
        = push_args [ANumber (js_Number e param)] (push_symbolic ''<number>'' st)"
      by (simp add: match_any_def match_number_def)
    then have "md_symbolicArgs (ex_metadata (push_args [AString param] (push_symbolic ''<any>'' st)))
        = md_symbolicArgs (ex_metadata (push_args [ANumber (js_Number e param)] (push_symbolic ''<number>'' st)))"
      by (rule arg_cong)
    then show False by (simp add: sym)
  qed
  then show ?thesis
    by (simp add: execute_any_def match_rest_def no_match_def match_number_def Let_def
        split: option.splits AnyBranch.splits)
qed

text \<open>
  Claim C8. For a node with a number branch and a token that no earlier branch fits, the
  head token is handed to the number branch exactly when \<^verbatim>\<open>Number(param)\<close> is no NaN and
  the token is neither \<^verbatim>\<open>Infinity\<close> nor \<^verbatim>\<open>-Infinity\<close>; the number branch then goes on
  with the parsed number appended to \<^verbatim>\<open>menu.args\<close>. The token \<^verbatim>\<open>42\<close>, parsed as 42,
  is handed over as the number 42; the token \<^verbatim>\<open>Infinity\<close> goes on to the any branch
  although it parses.
\<close>

theorem number_branch_test:
  assumes reaches: "reaches_number_test e this param"
    and number: "cmd_number this = Some n"
  shows "((execute_param e this param args st = match_number e n param st)
           = (\<not> isNaN (js_Number e param) \<and> param \<noteq> ''Infinity'' \<and> param \<noteq> ''-Infinity''))
         \<and> (\<not> isNaN (js_Number e param) \<and> param \<noteq> ''Infinity'' \<and> param \<noteq> ''-Infinity''
            \<longrightarrow> execute e this (param # args) st =
                  execute e n args
                    (push_args [ANumber (js_Number e param)]
                       (push_symbolic ''<number>'' (inherit_state (cmd_base this) st))))
         \<and> (param = ''42'' \<and> js_Number e ''42'' = Finite 42
            \<longrightarrow> execute e this (param # args) st =
                  execute e n args
                    (push_args [ANumber (Finite 42)]
                       (push_symbolic ''<number>'' (inherit_state (cmd_base this) st))))
         \<and> (param = ''Infinity'' \<and> \<not> isNaN (js_Number e ''Infinity'')
            \<longrightarrow> execute_param e this param args st = execute_any this param args st
                \<and> execute_param e this param args st \<noteq> match_number e n param st)"
proof (intro conjI impI)
  show iff: "(execute_param e this param args st = match_number e n param st)
           = (\<not> isNaN (js_Number e param) \<and> param \<noteq> ''Infinity'' \<and> param \<noteq> ''-Infinity'')"
    using match_number_not_any [of this param args st e n]
    by (simp add: reaches_number_step [OF reaches] execute_number_def number)
  have taken: "execute e this (param # args) st =
                  execute e n args
                    (push_args [ANumber (js_Number e param)]
                       (push_symbolic ''<number>'' (inherit_state (cmd_base this) st)))"
    if "\<not> isNaN (js_Number e param) \<and> param \<noteq> ''Infinity'' \<and> param \<noteq> ''-Infinity''"
  proof -
    from that have "execute_param e this param args (inherit_state (cmd_base this) st)
        = match_number e n param (inherit_state (cmd_base this) st)"
      by (simp add: reaches_number_step [OF reaches] execute_number_def number)
    then show ?thesis
      by (simp add: execute_Cons match_number_def follow_def)
  qed
  {
    assume "\<not> isNaN (js_Number e param) \<and> param \<noteq> ''Infinity'' \<and> param \<noteq> ''-Infinity''"
    then show "execute e this (param # args) st =
                  execute e n args
                    (push_args [ANumber (js_Number e param)]
                       (push_symbolic ''<number>'' (inherit_state (cmd_base this) st)))"
      by (rule taken)
  }
  {
    assume a: "param = ''42'' \<and> js_Number e ''42'' = Finite 42"
    then have "\<not> isNaN (js_Number e param) \<and> param \<noteq> ''Infinity'' \<and> param \<noteq> ''-Infinity''"
      by (auto simp: isNaN_def)
    from taken [OF this] a show "execute e this (param # args) st =
                  execute e n args
                    (push_args [ANumber (Finite 42)]
                       (push_symbolic ''<number>'' (inherit_state (cmd_base this) st)))"
      by simp
  }
  {
    assume a: "param = ''Infinity'' \<and> \<not> isNaN (js_Number e ''Infinity'')"
    then have "param = ''Infinity''" by blast
    then show "execute_param e this param args st = execute_any this param args st"
      unfolding reaches_number_step [OF reaches]
      by (simp add: execute_number_def number)
    then show "execute_param e this param args st \<noteq> match_number e n param st"
      by (simp add: match_number_not_any)
  }
qed


theorem number_branch_test_witness:
  "reaches_number_test env0 root_number ''42''
   \<and> cmd_number root_number = Some (leaf (RunFn number_handler0))
   \<and> js_Number env0 ''42'' = Finite 42
   \<and> fst (execute env0 root_number [''42''] state0) = Return None
   \<and> \<not> isNaN (js_Number env0 ''Infinity'')
   \<and> fst (execute env0 root_number [''Infinity''] state0)
       = Return (Some (''No valid command sequence matching `cmd '' @ [dquote] @ ''Infinity''
                       @ [dquote] @ ''` found.''))"
proof -
  have reaches: "reaches_number_test env0 root_number p" for p
    by (simp add: reaches_number_test_def branch_matches_def root_number_def)
  have number: "cmd_number root_number = Some (leaf (RunFn number_handler0))"
    by (simp add: root_number_def)
  have base: "cmd_base root_number = plain"
    by (simp add: root_number_def)
  have parse: "js_Number env0 ''42'' = Finite 42"
    by (simp add: env0_def)
  have inf: "\<not> isNaN (js_Number env0 ''Infinity'')"
    by (simp add: env0_def isNaN_def)
  from number_branch_test [OF reaches number, of "''42''" "[]" state0] parse
  have "execute env0 root_number [''42''] state0 =
      execute env0 (leaf (RunFn number_handler0)) []
        (push_args [ANumber (Finite 42)]
           (push_symbolic ''<number>'' (inherit_state (cmd_base root_number) state0)))"
    by blast
  then have r42: "fst (execute env0 root_number [''42''] state0) = Return None"
    by (simp add: base execute.simps leaf_def execute_here_def inherit_state_def inherit_def
        plain_def state0_def push_symbolic_def push_args_def canExecute_def metadata0_def
        menu0_def menu_channel_type_def canExecute_nsfw_def canExecute_permission_def
        env0_def number_handler0_def)
  from number_branch_test [OF reaches number, of "''Infinity''" "[]"
      "inherit_state (cmd_base root_number) state0"] inf
  have "execute_param env0 root_number ''Infinity'' [] (inherit_state (cmd_base root_number) state0)
      = execute_any root_number ''Infinity'' [] (inherit_state (cmd_base root_number) state0)"
    by blast
  then have "execute env0 root_number [''Infinity''] state0
      = follow env0 []
          (execute_any root_number ''Infinity'' [] (inherit_state (cmd_base root_number) state0))"
    by (simp only: execute_Cons)
  then have rinf: "fst (execute env0 root_number [''Infinity''] state0)
       = Return (Some (''No valid command sequence matching `cmd '' @ [dquote] @ ''Infinity''
                       @ [dquote] @ ''` found.''))"
    by (simp add: base execute_any_def root_number_def no_match_def follow_def Let_def
        push_symbolic_def inherit_state_def inherit_def plain_def state0_def metadata0_def)
  from reaches number parse r42 inf rinf show ?thesis by blast
qed

section \<open>Properties of the introspection\<close>

lemma leftover_suffix:
  "\<exists>consumed. args = consumed @ snd (resolveInfoInternal this args md)"
proof (induction args arbitrary: this md)
  case Nil
  show ?case by (simp add: resolveInfoInternal.simps)
next
  case (Cons param args)
  show ?case
  proof (cases "resolveInfo_param this param")
    case InfoInvalid
    then have "snd (resolveInfoInternal this (param # args) md) = args"
      by (simp add: resolveInfoInternal.simps Let_def)
    then show ?thesis by simp
  next
    case (InfoDescend label child)
    let ?md = "(inherit_info (cmd_base this) md)\<lparr>im_args := im_args (inherit_info (cmd_base this) md) @ [label]\<rparr>"
    from InfoDescend have eq: "resolveInfoInternal this (param # args) md
        = resolveInfoInternal child args ?md"
      by (simp add: resolveInfoInternal.simps Let_def)
    from Cons.IH [of child ?md] obtain consumed
      where "args = consumed @ snd (resolveInfoInternal child args ?md)" by blast
    then have "param # args = (param # consumed) @ snd (resolveInfoInternal this (param # args) md)"
      by (simp add: eq)
    then show ?thesis by blast
  next
    case (InfoFinale rest)
    then have "snd (resolveInfoInternal this (param # args) md) = args"
      by (simp add: resolveInfoInternal.simps Let_def)
    then show ?thesis by simp
  qed
qed

lemma leftover_empty:
  "fst (resolveInfoInternal this args md) = Return (Info i) \<Longrightarrow> ci_command i = CommandNode n
   \<Longrightarrow> snd (resolveInfoInternal this args md) = []"
proof (induction args arbitrary: this md)
  case Nil
  show ?case by (simp add: resolveInfoInternal.simps)
next
  case (Cons param args)
  show ?case
  proof (cases "resolveInfo_param this param")
    case InfoInvalid
    with Cons.prems show ?thesis
      by (simp add: resolveInfoInternal.simps Let_def invalidSubcommandGenerator_def)
  next
    case (InfoDescend label child)
    with Cons.prems Cons.IH show ?thesis
      by (simp add: resolveInfoInternal.simps Let_def)
  next
    case (InfoFinale rest)
    with Cons.prems show ?thesis
      by (auto simp: resolveInfoInternal.simps Let_def resolveInfoFinale_def)
  qed
qed

text \<open>
  Claim C10, amended. \<open>resolveInfo\<close> builds its metadata afresh on every call, so its
  result depends on the tree, the header and the tokens that the array holds when the
  call starts; but it shifts the tokens it reads off the array it is given. Two calls on
  one array agree when the array is empty. Otherwise the second call resolves what the
  first one left: a suffix of the tokens, and nothing at all when the first call
  resolved to a command node, so that the second call then describes the root node.
\<close>

theorem resolveInfo_consumes_tokens:
  "fst (resolveInfo_twice this [] header) = snd (resolveInfo_twice this [] header)
   \<and> snd (resolveInfo_twice this args header)
       = fst (resolveInfo this (snd (resolveInfo this args header)) header)
   \<and> (\<exists>consumed. args = consumed @ snd (resolveInfo this args header))
   \<and> (fst (resolveInfo this args header) = Return (Info i) \<and> ci_command i = CommandNode n
       \<longrightarrow> snd (resolveInfo this args header) = []
           \<and> snd (resolveInfo_twice this args header) = fst (resolveInfo this [] header))"
proof (intro conjI impI)
  show "fst (resolveInfo_twice this [] header) = snd (resolveInfo_twice this [] header)"
    by (simp add: resolveInfo_twice_def resolveInfo_def resolveInfoInternal.simps Let_def)
  show second: "snd (resolveInfo_twice this args header)
       = fst (resolveInfo this (snd (resolveInfo this args header)) header)"
    by (simp add: resolveInfo_twice_def Let_def)
  show "\<exists>consumed. args = consumed @ snd (resolveInfo this args header)"
    unfolding resolveInfo_def by (rule leftover_suffix)
  assume a: "fst (resolveInfo this args header) = Return (Info i) \<and> ci_command i = CommandNode n"
  then show empty: "snd (resolveInfo this args header) = []"
    unfolding resolveInfo_def by (blast intro: leftover_empty)
  show "snd (resolveInfo_twice this args header) = fst (resolveInfo this [] header)"
    by (simp only: second empty)
qed


text \<open>
  The claim as stated fails: asked twice about the same array \<^verbatim>\<open>["ping"]\<close>, the first
  call describes the sub-command and the second one the root.
\<close>

theorem resolveInfo_twice_counterexample:
  "fst (resolveInfo_twice root_ping [''ping''] ''h'')
     \<noteq> snd (resolveInfo_twice root_ping [''ping''] ''h'')"
  by (simp add: resolveInfo_twice_def resolveInfo_def resolveInfoInternal.simps Let_def
      resolveInfo_param_def root_ping_def ping_def leaf_def resolveInfo_here_def plain_def
      inherit_info_def)


theorem resolveInfo_consumes_tokens_witness:
  "fst (resolveInfo root_ping [''ping''] ''h'') = Return (Info info_ping)
   \<and> ci_command info_ping = CommandNode (leaf (RunString ''pong''))
   \<and> snd (resolveInfo root_ping [''ping''] ''h'') = []
   \<and> snd (resolveInfo_twice root_ping [''ping''] ''h'') = fst (resolveInfo root_ping [] ''h'')"
proof -
  have first: "fst (resolveInfo root_ping [''ping''] ''h'') = Return (Info info_ping)"
    by (simp add: resolveInfo_def resolveInfoInternal.simps Let_def resolveInfo_param_def
        root_ping_def ping_def leaf_def resolveInfo_here_def plain_def inherit_info_def
        info_ping_def generic_entries_def branch_entry_def)
  have node: "ci_command info_ping = CommandNode (leaf (RunString ''pong''))"
    by (simp add: info_ping_def)
  from resolveInfo_consumes_tokens [of root_ping "''h''" "[''ping'']" info_ping
      "leaf (RunString ''pong'')"] first node
  have "snd (resolveInfo root_ping [''ping''] ''h'') = []
      \<and> snd (resolveInfo_twice root_ping [''ping''] ''h'') = fst (resolveInfo root_ping [] ''h'')"
    by blast
  with first node show ?thesis by blast
qed

section \<open>Properties of the inherited rules\<close>

lemma exec_rules_inherit: "exec_rules (inherit b md) = override b (exec_rules md)"
  by (simp add: inherit_def override_def exec_rules_def Let_def split: option.splits)

lemma info_rules_inherit: "info_rules (inherit_info b md) = override b (info_rules md)"
  by (simp add: inherit_info_def override_def info_rules_def Let_def split: option.splits)

lemma exec_rules_push [simp]:
  "exec_rules (ex_metadata (push_symbolic s st)) = exec_rules (ex_metadata st)"
  "exec_rules (ex_metadata (push_args vs st)) = exec_rules (ex_metadata st)"
  by (simp_all add: push_symbolic_def push_args_def exec_rules_def)

lemma step_state_simps:
  "step_state (Finish r st) = st"
  "step_state (Descend c st) = st"
  "step_state (DescendRest rest combined st) = st"
  by (simp_all add: step_state_def)

lemma take_branch_rules:
  "exec_rules (ex_metadata (step_state (take_branch e this b param args st)))
     = exec_rules (ex_metadata st)"
proof -
  have nm: "exec_rules (ex_metadata (step_state (no_match param st))) = exec_rules (ex_metadata st)"
    by (simp add: no_match_def step_state_simps Let_def)
  have ids: "exec_rules (ex_metadata (step_state (id_switch e c k i s))) = exec_rules (ex_metadata s)"
    for c k i s
    by (cases k)
       (simp_all add: id_switch_def step_state_simps split: sum.splits js_ref.splits option.splits)
  show ?thesis
  proof (cases b)
    case BSubcommand
    then show ?thesis
      by (simp add: take_branch_def nm match_subcommand_def step_state_simps split: option.splits)
  next
    case BChannel
    then show ?thesis
      by (simp add: take_branch_def nm match_channel_def split: option.splits)
         (simp add: step_state_simps split: sum.splits)
  next
    case BMessage
    then show ?thesis
      by (simp add: take_branch_def nm match_message_def split: option.splits)
         (simp add: step_state_simps split: sum.splits)
  next
    case BUser
    then show ?thesis
      by (simp add: take_branch_def nm match_user_def split: option.splits)
         (simp add: step_state_simps split: sum.splits)
  next
    case BId
    then show ?thesis
      by (simp add: take_branch_def nm match_id_def ids split: option.splits)
  next
    case BNumber
    then show ?thesis
      by (simp add: take_branch_def nm match_number_def split: option.splits)
         (simp add: step_state_simps)
  next
    case BAnyCommand
    then show ?thesis
      by (simp add: take_branch_def nm match_any_def split: option.splits AnyBranch.splits)
         (simp add: step_state_simps)
  next
    case BAnyRest
    then show ?thesis
      by (simp add: take_branch_def nm match_rest_def split: option.splits AnyBranch.splits)
         (simp add: step_state_simps)
  next
    case BNoMatch
    then show ?thesis by (simp add: take_branch_def nm)
  qed
qed

lemma execute_param_rules:
  "exec_rules (ex_metadata (step_state (execute_param e this param args st)))
     = exec_rules (ex_metadata st)"
  by (simp only: execute_param_selected take_branch_rules)

lemma send_template_metadata:
  "ex_metadata (snd (send_template e t st)) = ex_metadata st"
  by (simp add: send_template_def Let_def split: js_ref.splits option.splits)

lemma catch_handler_metadata:
  "ex_metadata (snd (catch_handler err st)) = ex_metadata st"
  by (simp add: catch_handler_def split: thrown.splits outcome.splits)

lemma execute_here_metadata:
  "ex_metadata (snd (execute_here e this st)) = ex_metadata st"
  by (simp add: execute_here_def send_template_metadata catch_handler_metadata
      split: outcome.splits Run.splits option.splits)

lemma RestCommand_execute_metadata:
  "ex_metadata (snd (RestCommand_execute e r combined st)) = inherit (rest_base r) (ex_metadata st)"
  by (simp add: RestCommand_execute_def Let_def send_template_metadata catch_handler_metadata
      inherit_state_def split: outcome.splits RestRun.splits option.splits)

lemma execute_rules:
  "exec_rules (ex_metadata (snd (execute e this args st)))
     = fold override (exec_path e this args st) (exec_rules (ex_metadata st))"
proof (induction args arbitrary: this st)
  case Nil
  show ?case
    by (simp add: execute.simps execute_here_metadata inherit_state_def exec_rules_inherit)
next
  case (Cons param args)
  let ?st = "inherit_state (cmd_base this) st"
  have own: "exec_rules (ex_metadata ?st) = override (cmd_base this) (exec_rules (ex_metadata st))"
    by (simp add: inherit_state_def exec_rules_inherit)
  show ?case
  proof (cases "execute_param e this param args ?st")
    case (Finish r st')
    with execute_param_rules [of e this param args ?st] show ?thesis
      by (simp add: execute.simps step_state_simps own)
  next
    case (Descend child st')
    with execute_param_rules [of e this param args ?st] Cons.IH [of child st'] show ?thesis
      by (simp add: execute.simps step_state_simps own)
  next
    case (DescendRest rest combined st')
    with execute_param_rules [of e this param args ?st] show ?thesis
      by (simp add: execute.simps step_state_simps own RestCommand_execute_metadata
          exec_rules_inherit)
  qed
qed

lemma resolveInfo_here_rules:
  "resolveInfo_here this md = Return (Info i) \<Longrightarrow> ci_metadata i = md"
  by (auto simp: resolveInfo_here_def split: outcome.splits)

lemma info_rules_args [simp]: "info_rules (md\<lparr>im_args := a\<rparr>) = info_rules md"
  by (simp add: info_rules_def)

lemma resolveInfoInternal_rules:
  "fst (resolveInfoInternal this args md) = Return (Info i) \<Longrightarrow>
   info_rules (ci_metadata i) = fold override (info_path this args) (info_rules md)"
proof (induction args arbitrary: this md)
  case Nil
  then show ?case
    by (auto simp: resolveInfoInternal.simps info_rules_inherit dest!: resolveInfo_here_rules)
next
  case (Cons param args)
  show ?case
  proof (cases "resolveInfo_param this param")
    case InfoInvalid
    with Cons.prems show ?thesis
      by (simp add: resolveInfoInternal.simps Let_def invalidSubcommandGenerator_def)
  next
    case (InfoDescend label child)
    with Cons.prems
    have "fst (resolveInfoInternal child args
        ((inherit_info (cmd_base this) md)\<lparr>im_args := im_args (inherit_info (cmd_base this) md) @ [label]\<rparr>))
        = Return (Info i)"
      by (simp add: resolveInfoInternal.simps Let_def)
    from Cons.IH [OF this] InfoDescend show ?thesis
      by (simp add: info_rules_inherit)
  next
    case (InfoFinale rest)
    with Cons.prems show ?thesis
      by (auto simp: resolveInfoInternal.simps Let_def resolveInfoFinale_def info_rules_inherit)
  qed
qed

lemma fold_override_none:
  "list_all (\<lambda>b. permission b = - 1) path \<Longrightarrow> fst (fold override path r) = fst r"
  "list_all (\<lambda>b. nsfw b = None) path \<Longrightarrow> fst (snd (fold override path r)) = fst (snd r)"
  "list_all (\<lambda>b. channelType b = None) path \<Longrightarrow> snd (snd (fold override path r)) = snd (snd r)"
  by (induction path arbitrary: r) (simp_all add: override_def)

lemma fold_override_last:
  "permission child \<noteq> - 1 \<Longrightarrow> fst (fold override (path @ [child]) r) = permission child"
  by (simp add: override_def)


text \<open>
  Claim C2. Both walks apply a node's own overrides before they look at a token: the
  node is the first of the path whatever the tokens are, the leaf action and the gate
  of a call without tokens see the state after the node's overrides, and the head token
  of a longer call is examined in that state. The permission, NSFW flag and channel
  type that \<open>execute\<close> ends with, and those that \<open>resolveInfo\<close> reports, are the starting
  values overridden by each node of the path in turn, each value on its own. So the last
  node of a path decides a value it overrides, and a value that no node of the path
  overrides stays what it was at the start: 0, false and \<^verbatim>\<open>TextChannel\<close> for
  \<open>resolveInfo\<close>.
\<close>

theorem overrides_before_tokens:
  "exec_rules (ex_metadata (snd (execute e this args st)))
     = fold override (exec_path e this args st) (exec_rules (ex_metadata st))
   \<and> (fst (resolveInfo this args header) = Return (Info i)
        \<longrightarrow> info_rules (ci_metadata i) = fold override (info_path this args) root_default)
   \<and> hd (exec_path e this args st) = cmd_base this
   \<and> hd (info_path this args) = cmd_base this
   \<and> execute e this [] st = execute_here e this (inherit_state (cmd_base this) st)
   \<and> execute e this (param # args) st
       = follow e args (execute_param e this param args (inherit_state (cmd_base this) st))
   \<and> exec_rules (ex_metadata (inherit_state (cmd_base this) st))
       = override (cmd_base this) (exec_rules (ex_metadata st))
   \<and> (canExecute e (ex_menu st) (inherit (cmd_base this) (ex_metadata st)) = Return (Some m)
        \<and> m \<noteq> []
        \<longrightarrow> fst (execute e this [] st) = Return (Some m))
   \<and> (permission child \<noteq> - 1 \<longrightarrow> fst (fold override (path @ [child]) r) = permission child)
   \<and> (list_all (\<lambda>b. permission b = - 1) path \<longrightarrow> fst (fold override path r) = fst r)
   \<and> (list_all (\<lambda>b. nsfw b = None) path
        \<longrightarrow> fst (snd (fold override path r)) = fst (snd r))
   \<and> (list_all (\<lambda>b. channelType b = None) path
        \<longrightarrow> snd (snd (fold override path r)) = snd (snd r))"
proof (intro conjI impI)
  show "exec_rules (ex_metadata (snd (execute e this args st)))
     = fold override (exec_path e this args st) (exec_rules (ex_metadata st))"
    by (rule execute_rules)
  show "hd (exec_path e this args st) = cmd_base this"
    by (cases args) simp_all
  show "hd (info_path this args) = cmd_base this"
    by (cases args) simp_all
  show "execute e this [] st = execute_here e this (inherit_state (cmd_base this) st)"
    by (simp add: execute.simps)
  show "execute e this (param # args) st
       = follow e args (execute_param e this param args (inherit_state (cmd_base this) st))"
    by (rule execute_Cons)
  show "exec_rules (ex_metadata (inherit_state (cmd_base this) st))
       = override (cmd_base this) (exec_rules (ex_metadata st))"
    by (simp add: inherit_state_def exec_rules_inherit)
next
  assume "fst (resolveInfo this args header) = Return (Info i)"
  then have "info_rules (ci_metadata i) = fold override (info_path this args)
      (info_rules \<lparr>im_permission = 0, im_nsfw = False, im_channelType = ''TextChannel'',
         im_args = [], im_usage = [], im_originalArgs = args, im_header = header\<rparr>)"
    unfolding resolveInfo_def by (rule resolveInfoInternal_rules)
  then show "info_rules (ci_metadata i) = fold override (info_path this args) root_default"
    by (simp add: info_rules_def root_default_def)
next
  assume "canExecute e (ex_menu st) (inherit (cmd_base this) (ex_metadata st)) = Return (Some m)
        \<and> m \<noteq> []"
  then show "fst (execute e this [] st) = Return (Some m)"
    by (simp add: execute.simps execute_here_def inherit_state_def)
next
  assume "permission child \<noteq> - 1"
  then show "fst (fold override (path @ [child]) r) = permission child"
    by (rule fold_override_last)
next
  assume "list_all (\<lambda>b. permission b = - 1) path"
  then show "fst (fold override path r) = fst r"
    by (rule fold_override_none)
next
  assume "list_all (\<lambda>b. nsfw b = None) path"
  then show "fst (snd (fold override path r)) = fst (snd r)"
    by (rule fold_override_none)
next
  assume "list_all (\<lambda>b. channelType b = None) path"
  then show "snd (snd (fold override path r)) = snd (snd r)"
    by (rule fold_override_none)
qed

theorem overrides_before_tokens_witness:
  "fst (resolveInfo root_strict [''admin''] ''h'') = Return (Info info_admin)
   \<and> info_path root_strict [''admin''] = [plain, strict]
   \<and> permission plain = - 1 \<and> permission strict = 5
   \<and> list_all (\<lambda>b. nsfw b = None) [plain, strict]
   \<and> info_rules (ci_metadata info_admin) = (5, False, ''DirectMessage'')
   \<and> exec_path env0 root_strict [''admin''] state0 = [plain, strict]
   \<and> exec_rules (ex_metadata (snd (execute env0 root_strict [''admin''] state0)))
       = (5, False, ''DirectMessage'')
   \<and> fst (execute env0 admin [] state0)
       = Return (Some ''This command must be executed as a direct message.'')
   \<and> fold override [plain, plain] root_default = root_default"
proof -
  have first: "fst (resolveInfo root_strict [''admin''] ''h'') = Return (Info info_admin)"
    by (simp add: resolveInfo_def resolveInfoInternal.simps Let_def resolveInfo_param_def
        root_strict_def admin_def strict_def resolveInfo_here_def plain_def inherit_info_def
        info_admin_def generic_entries_def branch_entry_def)
  have ipath: "info_path root_strict [''admin''] = [plain, strict]"
    by (simp add: resolveInfo_param_def root_strict_def admin_def)
  have epath: "exec_path env0 root_strict [''admin''] state0 = [plain, strict]"
    by (simp add: execute_param_def match_subcommand_def root_strict_def admin_def)
  have perms: "permission plain = - 1" "permission strict = 5"
    "list_all (\<lambda>b. nsfw b = None) [plain, strict]"
    by (simp_all add: plain_def strict_def)
  have fold2: "fold override [plain, strict] root_default = (5, False, ''DirectMessage'')"
    by (simp add: override_def plain_def strict_def root_default_def)
  have fold0: "fold override [plain, plain] root_default = root_default"
    by (simp add: override_def plain_def root_default_def)
  have start: "exec_rules (ex_metadata state0) = root_default"
    by (simp add: exec_rules_def state0_def metadata0_def root_default_def)
  have gate: "canExecute env0 (ex_menu state0) (inherit (cmd_base admin) (ex_metadata state0))
      = Return (Some ''This command must be executed as a direct message.'')
      \<and> ''This command must be executed as a direct message.'' \<noteq> []"
    by (simp add: canExecute_def admin_def strict_def plain_def inherit_def state0_def
        metadata0_def menu0_def menu_channel_type_def)
  note inst1 = overrides_before_tokens [of env0 root_strict "[''admin'']" state0 "''h''"
      info_admin]
  from inst1 first
  have "info_rules (ci_metadata info_admin)
      = fold override (info_path root_strict [''admin'']) root_default"
    by blast
  then have irules: "info_rules (ci_metadata info_admin) = (5, False, ''DirectMessage'')"
    by (simp only: ipath fold2)
  have erules: "exec_rules (ex_metadata (snd (execute env0 root_strict [''admin''] state0)))
       = (5, False, ''DirectMessage'')"
    using inst1 [THEN conjunct1] by (simp only: epath start fold2)
  from overrides_before_tokens [of env0 admin "[]" state0 "''h''" info_admin
      "''This command must be executed as a direct message.''"] gate
  have rej: "fst (execute env0 admin [] state0)
       = Return (Some ''This command must be executed as a direct message.'')"
    by blast
  from first ipath perms irules epath erules rej fold0 show ?thesis by blast
qed

section \<open>Properties of registering sub-commands\<close>

lemma map_of_Map_set: "map_of (Map_set k v m) = (map_of m)(k \<mapsto> v)"
  by (induction m) (auto simp: fun_eq_iff)

lemma map_of_set_base:
  "distinct (map fst subs) \<Longrightarrow>
   map_of (set_base subs m) k = (case map_of subs k of Some r \<Rightarrow> Some r | None \<Rightarrow> map_of m k)"
proof (induction subs arbitrary: m)
  case Nil
  show ?case by simp
next
  case (Cons entry subs)
  obtain n r where entry: "entry = (n, r)" by (cases entry)
  from Cons.prems entry have fresh: "map_of subs n = None" and rest: "distinct (map fst subs)"
    by (auto simp: map_of_eq_None_iff)
  show ?case
    using Cons.IH [OF rest, of "Map_set n r m"] fresh
    by (auto simp: entry map_of_Map_set split: option.splits)
qed

lemma set_aliases_heap:
  "ctor_heap (set_aliases base name r als st) = ctor_heap st"
  by (induction als arbitrary: st) simp_all

lemma set_aliases_map:
  "map_of (ctor_subcommands (set_aliases base name r als st)) k =
     (case map_of (ctor_subcommands st) k of
        Some x \<Rightarrow> Some x
      | None \<Rightarrow> if k \<in> set als \<and> k \<notin> set base then Some r else None)"
proof (induction als arbitrary: st)
  case Nil
  show ?case by (simp split: option.splits)
next
  case (Cons a als)
  show ?case
    by (simp add: Cons.IH map_of_Map_set split: option.splits)
qed

lemma set_aliases_warnings_mono:
  "set (ctor_warnings st) \<subseteq> set (ctor_warnings (set_aliases base name r als st))"
proof (induction als arbitrary: st)
  case Nil
  show ?case by simp
next
  case (Cons a als)
  let ?st = "(if a \<in> set base
        then st\<lparr>ctor_warnings := ctor_warnings st @ [warn_base a name]\<rparr>
        else if map_of (ctor_subcommands st) a \<noteq> None
        then st\<lparr>ctor_warnings := ctor_warnings st @ [warn_duplicate a name]\<rparr>
        else st\<lparr>ctor_subcommands := Map_set a r (ctor_subcommands st)\<rparr>)"
  have "set (ctor_warnings st) \<subseteq> set (ctor_warnings ?st)" by auto
  also have "\<dots> \<subseteq> set (ctor_warnings (set_aliases base name r als ?st))" by (rule Cons.IH)
  finally show ?case by simp
qed

lemma set_aliases_map_mono:
  "map_of (ctor_subcommands st) k = Some x \<Longrightarrow>
   map_of (ctor_subcommands (set_aliases base name r als st)) k = Some x"
  by (simp add: set_aliases_map)

lemma set_aliases_warn_base:
  "alias \<in> set als \<Longrightarrow> alias \<in> set base \<Longrightarrow>
   warn_base alias name \<in> set (ctor_warnings (set_aliases base name r als st))"
proof (induction als arbitrary: st)
  case Nil
  then show ?case by simp
next
  case (Cons a als)
  show ?case
  proof (cases "a = alias")
    case True
    let ?st = "st\<lparr>ctor_warnings := ctor_warnings st @ [warn_base alias name]\<rparr>"
    have "warn_base alias name \<in> set (ctor_warnings ?st)" by simp
    with set_aliases_warnings_mono [of ?st base name r als] True Cons.prems show ?thesis
      by auto
  next
    case False
    with Cons.prems have "alias \<in> set als" by simp
    from Cons.IH [OF this Cons.prems(2)] show ?thesis by simp
  qed
qed

lemma set_aliases_warn_duplicate:
  "alias \<in> set als \<Longrightarrow> alias \<notin> set base \<Longrightarrow> map_of (ctor_subcommands st) alias \<noteq> None \<Longrightarrow>
   warn_duplicate alias name \<in> set (ctor_warnings (set_aliases base name r als st))"
proof (induction als arbitrary: st)
  case Nil
  then show ?case by simp
next
  case (Cons a als)
  let ?st = "(if a \<in> set base
        then st\<lparr>ctor_warnings := ctor_warnings st @ [warn_base a name]\<rparr>
        else if map_of (ctor_subcommands st) a \<noteq> None
        then st\<lparr>ctor_warnings := ctor_warnings st @ [warn_duplicate a name]\<rparr>
        else st\<lparr>ctor_subcommands := Map_set a r (ctor_subcommands st)\<rparr>)"
  have step: "set_aliases base name r (a # als) st = set_aliases base name r als ?st"
    by simp
  show ?case
  proof (cases "a = alias")
    case True
    with Cons.prems have "warn_duplicate alias name \<in> set (ctor_warnings ?st)" by auto
    with set_aliases_warnings_mono [of ?st base name r als] show ?thesis
      unfolding step by blast
  next
    case False
    with Cons.prems have in_as: "alias \<in> set als" by simp
    from Cons.prems(3) False have "map_of (ctor_subcommands ?st) alias \<noteq> None"
      by (auto simp: map_of_Map_set)
    from Cons.IH [OF in_as Cons.prems(2) this] show ?thesis
      unfolding step .
  qed
qed


lemma set_name_Return:
  assumes "set_name r v h = Return h'"
  shows "originalCommandName (h r) = None"
    and "h' = h(r := NamedCommand (nc_command (h r)) (aliases (h r)) (Some v))"
  using assms by (auto simp: set_name_def split: option.splits)

lemma set_name_aliases:
  "set_name r v h = Return h' \<Longrightarrow> aliases (h' x) = aliases (h x)"
  by (auto dest!: set_name_Return(2))

lemma set_names_Cons:
  assumes "set_names base ((n, r) # rest) st = Return st'"
  obtains h1 where "set_name r n (ctor_heap st) = Return h1"
    and "set_names base rest
           (set_aliases base n r (aliases (h1 r)) (st\<lparr>ctor_heap := h1\<rparr>)) = Return st'"
  using assms by (auto split: outcome.splits)

lemma set_names_map:
  "set_names base es st = Return st' \<Longrightarrow>
   (\<And>x. aliases (ctor_heap st x) = aliases (h x)) \<Longrightarrow>
   map_of (ctor_subcommands st') k =
     (case map_of (ctor_subcommands st) k of
        Some x \<Rightarrow> Some x
      | None \<Rightarrow>
          if k \<in> set base then None
          else map_option snd (find (\<lambda>entry. k \<in> set (aliases (h (snd entry)))) es))"
proof (induction es arbitrary: st)
  case Nil
  then show ?case by (simp split: option.splits)
next
  case (Cons entry es)
  obtain n r where entry: "entry = (n, r)" by (cases entry)
  from Cons.prems(1) [unfolded entry] obtain h1
    where name: "set_name r n (ctor_heap st) = Return h1"
      and rest: "set_names base es
           (set_aliases base n r (aliases (h1 r)) (st\<lparr>ctor_heap := h1\<rparr>)) = Return st'"
    by (rule set_names_Cons)
  let ?st1 = "set_aliases base n r (aliases (h1 r)) (st\<lparr>ctor_heap := h1\<rparr>)"
  have al1: "aliases (h1 x) = aliases (h x)" for x
    using set_name_aliases [OF name, of x] Cons.prems(2) [of x] by simp
  have heap1: "aliases (ctor_heap ?st1 x) = aliases (h x)" for x
    by (simp add: set_aliases_heap al1)
  have map1: "map_of (ctor_subcommands ?st1) k =
     (case map_of (ctor_subcommands st) k of
        Some x \<Rightarrow> Some x
      | None \<Rightarrow> if k \<in> set (aliases (h r)) \<and> k \<notin> set base then Some r else None)"
    by (simp add: set_aliases_map al1)
  show ?case
    using Cons.IH [OF rest heap1]
    by (auto simp: entry map1 split: option.splits)
qed

lemma set_names_warnings_mono:
  "set_names base es st = Return st' \<Longrightarrow> set (ctor_warnings st) \<subseteq> set (ctor_warnings st')"
proof (induction es arbitrary: st)
  case Nil
  then show ?case by simp
next
  case (Cons entry es)
  obtain n r where entry: "entry = (n, r)" by (cases entry)
  from Cons.prems(1) [unfolded entry] obtain h1
    where rest: "set_names base es
           (set_aliases base n r (aliases (h1 r)) (st\<lparr>ctor_heap := h1\<rparr>)) = Return st'"
    by (rule set_names_Cons)
  have "set (ctor_warnings st) \<subseteq> set (ctor_warnings (st\<lparr>ctor_heap := h1\<rparr>))" by simp
  also note set_aliases_warnings_mono
  also note Cons.IH [OF rest]
  finally show ?case .
qed

lemma set_names_map_mono:
  "set_names base es st = Return st' \<Longrightarrow> map_of (ctor_subcommands st) k = Some x \<Longrightarrow>
   map_of (ctor_subcommands st') k = Some x"
proof (induction es arbitrary: st)
  case Nil
  then show ?case by simp
next
  case (Cons entry es)
  obtain n r where entry: "entry = (n, r)" by (cases entry)
  from Cons.prems(1) [unfolded entry] obtain h1
    where rest: "set_names base es
           (set_aliases base n r (aliases (h1 r)) (st\<lparr>ctor_heap := h1\<rparr>)) = Return st'"
    by (rule set_names_Cons)
  from Cons.prems(2) have "map_of (ctor_subcommands (st\<lparr>ctor_heap := h1\<rparr>)) k = Some x"
    by simp
  then have "map_of (ctor_subcommands
      (set_aliases base n r (aliases (h1 r)) (st\<lparr>ctor_heap := h1\<rparr>))) k = Some x"
    by (rule set_aliases_map_mono)
  from Cons.IH [OF rest this] show ?case .
qed

lemma set_names_keeps_name:
  "set_names base es st = Return st' \<Longrightarrow> originalCommandName (ctor_heap st x) = Some v \<Longrightarrow>
   originalCommandName (ctor_heap st' x) = Some v"
proof (induction es arbitrary: st)
  case Nil
  then show ?case by simp
next
  case (Cons entry es)
  obtain n r where entry: "entry = (n, r)" by (cases entry)
  from Cons.prems(1) [unfolded entry] obtain h1
    where name: "set_name r n (ctor_heap st) = Return h1"
      and rest: "set_names base es
           (set_aliases base n r (aliases (h1 r)) (st\<lparr>ctor_heap := h1\<rparr>)) = Return st'"
    by (rule set_names_Cons)
  from set_name_Return [OF name] Cons.prems(2) have "x \<noteq> r" and "h1 x = ctor_heap st x"
    by auto
  with Cons.prems(2) have "originalCommandName
      (ctor_heap (set_aliases base n r (aliases (h1 r)) (st\<lparr>ctor_heap := h1\<rparr>)) x) = Some v"
    by (simp add: set_aliases_heap)
  from Cons.IH [OF rest this] show ?case .
qed

lemma set_names_sets_name:
  "set_names base es st = Return st' \<Longrightarrow> (name, r) \<in> set es \<Longrightarrow>
   originalCommandName (ctor_heap st' r) = Some name"
proof (induction es arbitrary: st)
  case Nil
  then show ?case by simp
next
  case (Cons entry es)
  obtain n0 r0 where entry: "entry = (n0, r0)" by (cases entry)
  from Cons.prems(1) [unfolded entry] obtain h1
    where name: "set_name r0 n0 (ctor_heap st) = Return h1"
      and rest: "set_names base es
           (set_aliases base n0 r0 (aliases (h1 r0)) (st\<lparr>ctor_heap := h1\<rparr>)) = Return st'"
    by (rule set_names_Cons)
  show ?case
  proof (cases "(name, r) = (n0, r0)")
    case True
    from set_name_Return(2) [OF name] have "originalCommandName (h1 r0) = Some n0" by simp
    then have "originalCommandName
        (ctor_heap (set_aliases base n0 r0 (aliases (h1 r0)) (st\<lparr>ctor_heap := h1\<rparr>)) r0)
        = Some n0"
      by (simp add: set_aliases_heap)
    from set_names_keeps_name [OF rest this] True show ?thesis by simp
  next
    case False
    with Cons.prems(2) entry have "(name, r) \<in> set es" by auto
    from Cons.IH [OF rest this] show ?thesis .
  qed
qed


lemma set_names_warn_base:
  "set_names base es st = Return st' \<Longrightarrow>
   (\<And>x. aliases (ctor_heap st x) = aliases (h x)) \<Longrightarrow>
   (name, r) \<in> set es \<Longrightarrow> al \<in> set (aliases (h r)) \<Longrightarrow> al \<in> set base \<Longrightarrow>
   warn_base al name \<in> set (ctor_warnings st')"
proof (induction es arbitrary: st)
  case Nil
  then show ?case by simp
next
  case (Cons entry es)
  obtain n0 r0 where entry: "entry = (n0, r0)" by (cases entry)
  from Cons.prems(1) [unfolded entry] obtain h1
    where name: "set_name r0 n0 (ctor_heap st) = Return h1"
      and rest: "set_names base es
           (set_aliases base n0 r0 (aliases (h1 r0)) (st\<lparr>ctor_heap := h1\<rparr>)) = Return st'"
    by (rule set_names_Cons)
  let ?st1 = "set_aliases base n0 r0 (aliases (h1 r0)) (st\<lparr>ctor_heap := h1\<rparr>)"
  have al1: "aliases (h1 x) = aliases (h x)" for x
    using set_name_aliases [OF name, of x] Cons.prems(2) [of x] by simp
  have heap1: "aliases (ctor_heap ?st1 x) = aliases (h x)" for x
    by (simp add: set_aliases_heap al1)
  show ?case
  proof (cases "(name, r) = (n0, r0)")
    case True
    with Cons.prems(4) have "al \<in> set (aliases (h1 r0))" by (simp add: al1)
    from set_aliases_warn_base [OF this Cons.prems(5)]
    have "warn_base al n0 \<in> set (ctor_warnings ?st1)" .
    with set_names_warnings_mono [OF rest] True show ?thesis by auto
  next
    case False
    with Cons.prems(3) entry have "(name, r) \<in> set es" by auto
    from Cons.IH [OF rest heap1 this Cons.prems(4,5)] show ?thesis .
  qed
qed

lemma set_names_warn_duplicate:
  "set_names base es st = Return st' \<Longrightarrow>
   (\<And>x. aliases (ctor_heap st x) = aliases (h x)) \<Longrightarrow>
   es = pre @ (name, r) # post \<Longrightarrow> al \<in> set (aliases (h r)) \<Longrightarrow> al \<notin> set base \<Longrightarrow>
   map_of (ctor_subcommands st) al \<noteq> None
     \<or> (\<exists>entry \<in> set pre. al \<in> set (aliases (h (snd entry)))) \<Longrightarrow>
   warn_duplicate al name \<in> set (ctor_warnings st')"
proof (induction pre arbitrary: st es)
  case Nil
  then have es: "set_names base ((name, r) # post) st = Return st'"
    and bound: "map_of (ctor_subcommands st) al \<noteq> None"
    by simp_all
  from es obtain h1
    where name: "set_name r name (ctor_heap st) = Return h1"
      and rest: "set_names base post
           (set_aliases base name r (aliases (h1 r)) (st\<lparr>ctor_heap := h1\<rparr>)) = Return st'"
    by (rule set_names_Cons)
  have "aliases (h1 r) = aliases (h r)"
    using set_name_aliases [OF name, of r] Nil.prems(2) [of r] by simp
  with Nil.prems(4) have "al \<in> set (aliases (h1 r))" by simp
  moreover from bound have "map_of (ctor_subcommands (st\<lparr>ctor_heap := h1\<rparr>)) al \<noteq> None"
    by simp
  ultimately have "warn_duplicate al name \<in> set (ctor_warnings
      (set_aliases base name r (aliases (h1 r)) (st\<lparr>ctor_heap := h1\<rparr>)))"
    using Nil.prems(5) by (intro set_aliases_warn_duplicate)
  with set_names_warnings_mono [OF rest] show ?case by auto
next
  case (Cons entry pre)
  obtain n0 r0 where entry: "entry = (n0, r0)" by (cases entry)
  from Cons.prems(1,3) entry
  have "set_names base ((n0, r0) # pre @ (name, r) # post) st = Return st'"
    by simp
  then obtain h1
    where name: "set_name r0 n0 (ctor_heap st) = Return h1"
      and rest: "set_names base (pre @ (name, r) # post)
           (set_aliases base n0 r0 (aliases (h1 r0)) (st\<lparr>ctor_heap := h1\<rparr>)) = Return st'"
    by (rule set_names_Cons)
  let ?st1 = "set_aliases base n0 r0 (aliases (h1 r0)) (st\<lparr>ctor_heap := h1\<rparr>)"
  have al1: "aliases (h1 x) = aliases (h x)" for x
    using set_name_aliases [OF name, of x] Cons.prems(2) [of x] by simp
  have heap1: "aliases (ctor_heap ?st1 x) = aliases (h x)" for x
    by (simp add: set_aliases_heap al1)
  have map1: "map_of (ctor_subcommands ?st1) al =
     (case map_of (ctor_subcommands st) al of
        Some x \<Rightarrow> Some x
      | None \<Rightarrow> if al \<in> set (aliases (h r0)) \<and> al \<notin> set base then Some r0 else None)"
    by (simp add: set_aliases_map al1)
  from Cons.prems(6) entry Cons.prems(5)
  have "map_of (ctor_subcommands ?st1) al \<noteq> None
     \<or> (\<exists>entry \<in> set pre. al \<in> set (aliases (h (snd entry))))"
    by (auto simp: map1 split: option.splits)
  from Cons.IH [OF rest heap1 refl Cons.prems(4,5) this] show ?case .
qed

lemma set_names_total:
  "distinct (map snd es) \<Longrightarrow>
   list_all (\<lambda>entry. originalCommandName (ctor_heap st (snd entry)) = None) es \<Longrightarrow>
   \<exists>st'. set_names base es st = Return st'"
proof (induction es arbitrary: st)
  case Nil
  show ?case by simp
next
  case (Cons entry es)
  obtain n0 r0 where entry: "entry = (n0, r0)" by (cases entry)
  let ?h1 = "(ctor_heap st)(r0 := NamedCommand (nc_command (ctor_heap st r0))
      (aliases (ctor_heap st r0)) (Some n0))"
  let ?st1 = "set_aliases base n0 r0 (aliases (?h1 r0)) (st\<lparr>ctor_heap := ?h1\<rparr>)"
  from Cons.prems(2) entry have name: "set_name r0 n0 (ctor_heap st) = Return ?h1"
    by (simp add: set_name_def)
  from Cons.prems entry
  have "list_all (\<lambda>entry. originalCommandName (ctor_heap ?st1 (snd entry)) = None) es"
    by (auto simp: list_all_iff set_aliases_heap)
  moreover from Cons.prems(1) have "distinct (map snd es)" by simp
  ultimately obtain st' where "set_names base es ?st1 = Return st'"
    using Cons.IH by blast
  with name show ?case by (auto simp: entry)
qed

lemma in_set_map_of:
  "distinct (map fst subs) \<Longrightarrow> (name, r) \<in> set subs \<Longrightarrow> map_of subs name = Some r"
  by simp

lemma first_alias_entry_before:
  assumes first: "first_alias_entry h subs al = Some (name', r')"
    and differs: "name' \<noteq> name"
    and mem: "(name, r) \<in> set subs"
    and lists: "al \<in> set (aliases (h r))"
  shows "\<exists>pre post. subs = pre @ (name, r) # post
           \<and> (\<exists>entry \<in> set pre. al \<in> set (aliases (h (snd entry))))"
proof -
  let ?P = "\<lambda>entry. al \<in> set (aliases (h (snd entry)))"
  from first obtain j where j: "j < length subs" "?P (subs ! j)" "(name', r') = subs ! j"
    "\<forall>k<j. \<not> ?P (subs ! k)"
    by (auto simp: first_alias_entry_def find_Some_iff)
  from mem obtain i where i: "i < length subs" "subs ! i = (name, r)"
    by (auto simp: in_set_conv_nth)
  have "j < i"
  proof (rule ccontr)
    assume "\<not> j < i"
    with j(3) i(2) differs have "i < j" by (cases "i = j") auto
    with j(4) i(2) lists show False by auto
  qed
  have split: "subs = take i subs @ (name, r) # drop (Suc i) subs"
    using id_take_nth_drop [OF i(1)] i(2) by simp
  from \<open>j < i\<close> i(1) have "subs ! j \<in> set (take i subs)"
    by (auto simp: in_set_conv_nth intro!: exI [of _ j])
  with j(2) split show ?thesis by blast
qed


text \<open>
  Claim C9. Registering sub-commands whose names are unset and whose objects are distinct
  completes, whatever their aliases are: a collision only adds a warning. When it
  completes, every key of the map holds the address that the option object gives it as a
  name or else the address of the first sub-command, in enumeration order, that lists
  it as an alias. So a sub-command's name holds its address, and the name written
  through that address is on the one object; an alias that is no sibling's name and
  that no earlier sub-command lists holds the same address as the name, hence the same
  object; an alias that is a sibling's name is warned about and keeps that sibling; an
  alias that an earlier sub-command lists is warned about and keeps the earlier one.
\<close>

theorem aliases_share_node:
  "(distinct (map snd subcommands)
      \<and> list_all (\<lambda>entry. originalCommandName (h (snd entry)) = None) subcommands
    \<longrightarrow> (\<exists>st. register_subcommands subcommands h = Return st))
   \<and> (register_subcommands subcommands h = Return st \<and> distinct (map fst subcommands) \<longrightarrow>
        map_of (ctor_subcommands st) k
          = (case map_of subcommands k of
               Some x \<Rightarrow> Some x
             | None \<Rightarrow> map_option snd (first_alias_entry h subcommands k))
      \<and> ((name, r) \<in> set subcommands \<longrightarrow>
            map_of (ctor_subcommands st) name = Some r
          \<and> originalCommandName (ctor_heap st r) = Some name
          \<and> (al \<in> set (aliases (h r)) \<and> map_of subcommands al = None
               \<and> first_alias_entry h subcommands al = Some (name, r)
             \<longrightarrow> map_of (ctor_subcommands st) al = Some r)
          \<and> (al \<in> set (aliases (h r)) \<and> map_of subcommands al = Some r'
             \<longrightarrow> warn_base al name \<in> set (ctor_warnings st)
                 \<and> map_of (ctor_subcommands st) al = Some r')
          \<and> (al \<in> set (aliases (h r)) \<and> map_of subcommands al = None
               \<and> first_alias_entry h subcommands al = Some (name', r') \<and> name' \<noteq> name
             \<longrightarrow> warn_duplicate al name \<in> set (ctor_warnings st)
                 \<and> map_of (ctor_subcommands st) al = Some r')))"
proof (intro conjI impI)
  let ?base = "map fst subcommands"
  let ?st0 = "\<lparr>ctor_subcommands = set_base subcommands [], ctor_heap = h, ctor_warnings = []\<rparr>"
  {
    assume "distinct (map snd subcommands)
      \<and> list_all (\<lambda>entry. originalCommandName (h (snd entry)) = None) subcommands"
    then show "\<exists>st. register_subcommands subcommands h = Return st"
      unfolding register_subcommands_def
      by (intro set_names_total) simp_all
  }
  assume ok: "register_subcommands subcommands h = Return st \<and> distinct (map fst subcommands)"
  then have run: "set_names ?base subcommands ?st0 = Return st"
    and names: "distinct (map fst subcommands)"
    by (simp_all add: register_subcommands_def)
  have heap0: "aliases (ctor_heap ?st0 x) = aliases (h x)" for x
    by simp
  have base0: "map_of (set_base subcommands []) key = map_of subcommands key" for key
    by (simp add: map_of_set_base [OF names] split: option.splits)
  have none_base: "key \<notin> set ?base" if "map_of subcommands key = None" for key
    using that by (simp add: map_of_eq_None_iff)
  show final: "map_of (ctor_subcommands st) key
          = (case map_of subcommands key of
               Some x \<Rightarrow> Some x
             | None \<Rightarrow> map_option snd (first_alias_entry h subcommands key))" for key
  proof (cases "map_of subcommands key")
    case None
    with set_names_map [OF run heap0, of key] none_base [of key] show ?thesis
      by (simp add: base0 first_alias_entry_def)
  next
    case (Some x)
    with set_names_map [OF run heap0, of key] show ?thesis
      by (simp add: base0)
  qed
  assume mem: "(name, r) \<in> set subcommands"
  from names mem have bound: "map_of subcommands name = Some r"
    by simp
  then show "map_of (ctor_subcommands st) name = Some r"
    by (simp add: final)
  from set_names_sets_name [OF run mem]
  show "originalCommandName (ctor_heap st r) = Some name" .
  {
    assume "al \<in> set (aliases (h r)) \<and> map_of subcommands al = None
               \<and> first_alias_entry h subcommands al = Some (name, r)"
    then show "map_of (ctor_subcommands st) al = Some r"
      by (simp add: final)
  }
  {
    assume a: "al \<in> set (aliases (h r)) \<and> map_of subcommands al = Some r'"
    then have "al \<in> set ?base"
      by (metis map_of_eq_None_iff option.distinct(1) set_map)
    with a set_names_warn_base [OF run heap0 mem, of al]
    show "warn_base al name \<in> set (ctor_warnings st)" by blast
    from a show "map_of (ctor_subcommands st) al = Some r'"
      by (simp add: final)
  }
  {
    assume a: "al \<in> set (aliases (h r)) \<and> map_of subcommands al = None
               \<and> first_alias_entry h subcommands al = Some (name', r') \<and> name' \<noteq> name"
    then have lists: "al \<in> set (aliases (h r))"
      and first: "first_alias_entry h subcommands al = Some (name', r')"
      and differs: "name' \<noteq> name"
      and nobase: "al \<notin> set ?base"
      using none_base [of al] by blast+
    from first_alias_entry_before [OF first differs mem lists] obtain pre post
      where split: "subcommands = pre @ (name, r) # post"
        and earlier: "\<exists>entry \<in> set pre. al \<in> set (aliases (h (snd entry)))"
      by blast
    from earlier have "map_of (ctor_subcommands ?st0) al \<noteq> None
        \<or> (\<exists>entry \<in> set pre. al \<in> set (aliases (h (snd entry))))" ..
    from set_names_warn_duplicate [OF run heap0 split lists nobase this]
    show "warn_duplicate al name \<in> set (ctor_warnings st)" .
    from a show "map_of (ctor_subcommands st) al = Some r'"
      by (simp add: final)
  }
qed


theorem aliases_share_node_witness:
  "register_subcommands subcommands0 heap0 = Return registered0
   \<and> distinct (map fst subcommands0)
   \<and> aliases (heap0 0) = [''ls'', ''show''] \<and> aliases (heap0 1) = [''ls'']
   \<and> map_of (ctor_subcommands registered0) ''list'' = Some 0
   \<and> map_of (ctor_subcommands registered0) ''ls'' = Some 0
   \<and> map_of (ctor_subcommands registered0) ''show'' = Some 1
   \<and> originalCommandName (ctor_heap registered0 0) = Some ''list''
   \<and> warn_base ''show'' ''list'' \<in> set (ctor_warnings registered0)
   \<and> warn_duplicate ''ls'' ''show'' \<in> set (ctor_warnings registered0)"
proof -
  have refs: "distinct (map snd subcommands0)
      \<and> list_all (\<lambda>entry. originalCommandName (heap0 (snd entry)) = None) subcommands0"
    by (simp add: subcommands0_def heap0_def)
  have names: "distinct (map fst subcommands0)"
    by (simp add: subcommands0_def)
  have al0: "aliases (heap0 0) = [''ls'', ''show'']" and al1: "aliases (heap0 1) = [''ls'']"
    by (simp_all add: heap0_def)
  have mem0: "(''list'', 0) \<in> set subcommands0" and mem1: "(''show'', 1) \<in> set subcommands0"
    by (simp_all add: subcommands0_def)
  have base: "map_of subcommands0 ''ls'' = None" "map_of subcommands0 ''show'' = Some 1"
    by (simp_all add: subcommands0_def)
  have first: "first_alias_entry heap0 subcommands0 ''ls'' = Some (''list'', 0)"
    by (simp add: first_alias_entry_def subcommands0_def heap0_def)
  from aliases_share_node [of subcommands0 heap0] refs
  obtain st where st: "register_subcommands subcommands0 heap0 = Return st"
    by blast
  then have reg: "register_subcommands subcommands0 heap0 = Return registered0"
    by (simp add: registered0_def)
  have in0: "''ls'' \<in> set (aliases (heap0 0))" "''show'' \<in> set (aliases (heap0 0))"
    and in1: "''ls'' \<in> set (aliases (heap0 1))"
    by (simp_all add: heap0_def)
  have differs: "''list'' \<noteq> ''show''"
    by simp
  from aliases_share_node [where subcommands = subcommands0 and h = heap0
      and st = registered0 and name = "''list''" and r = 0 and al = "''ls''"]
    reg names mem0 in0 base first
  have list: "map_of (ctor_subcommands registered0) ''list'' = Some 0"
    and named: "originalCommandName (ctor_heap registered0 0) = Some ''list''"
    and ls: "map_of (ctor_subcommands registered0) ''ls'' = Some 0"
    by blast+
  from aliases_share_node [where subcommands = subcommands0 and h = heap0
      and st = registered0 and name = "''list''" and r = 0 and al = "''show''" and r' = 1]
    reg names mem0 in0 base
  have warn1: "warn_base ''show'' ''list'' \<in> set (ctor_warnings registered0)"
    by blast
  from aliases_share_node [where subcommands = subcommands0 and h = heap0
      and st = registered0 and name = "''show''" and r = 1 and al = "''ls''"
      and name' = "''list''" and r' = 0]
    reg names mem1 in1 base first differs
  have "map_of (ctor_subcommands registered0) ''show'' = Some 1"
    and warn2: "warn_duplicate ''ls'' ''show'' \<in> set (ctor_warnings registered0)"
    by blast+
  with reg names al0 al1 list ls named warn1 show ?thesis by simp
qed

section \<open>Properties of the failures\<close>


lemma catch_handler_unconvertible:
  "catch_handler (ThrownValue NoStack (Fails t)) st = (Throw t, st)"
  by (simp add: catch_handler_def stack_or_self_def to_string_def)









end
